theory Spec2Isabelle
  imports Complex_Main
begin

section \<open>The link-graph script of the site (assets/graph-script.js)\<close>

text \<open>
  The script builds a graph of the site's pages from the search index, lays it out with
  the D3 force simulation, shows it in a mini widget and in a modal, and injects
  backlinks and related content into the page. The definitions below follow the script
  function by function. JavaScript strings are modelled as \<open>string\<close>, a character
  standing for a code unit below 256; the string operations the script uses are written
  out for these.
\<close>

subsection \<open>String operations of the script\<close>

text \<open>\<open>s.split(c)\<close> for a one-character separator: never the empty array.\<close>

fun split_on :: "char \<Rightarrow> string \<Rightarrow> string list" where
  "split_on c [] = [[]]"
| "split_on c (x # xs) =
     (if x = c then [] # split_on c xs
      else (case split_on c xs of [] \<Rightarrow> [[x]] | p # ps \<Rightarrow> (x # p) # ps))"

text \<open>\<open>parts.join(sep)\<close>.\<close>

fun join :: "string \<Rightarrow> string list \<Rightarrow> string" where
  "join sep [] = []"
| "join sep [p] = p"
| "join sep (p # q # ps) = p @ sep @ join sep (q # ps)"

text \<open>\<open>s.startsWith(p)\<close>, \<open>s.endsWith(p)\<close> and \<open>s.includes(p)\<close>.\<close>

fun startsWith :: "string \<Rightarrow> string \<Rightarrow> bool" where
  "startsWith s [] = True"
| "startsWith [] (p # ps) = False"
| "startsWith (x # xs) (p # ps) = (x = p \<and> startsWith xs ps)"

definition endsWith :: "string \<Rightarrow> string \<Rightarrow> bool" where
  "endsWith s p = startsWith (rev s) (rev p)"

fun includes_str :: "string \<Rightarrow> string \<Rightarrow> bool" where
  "includes_str [] p = (p = [])"
| "includes_str (x # xs) p = (startsWith (x # xs) p \<or> includes_str xs p)"

text \<open>\<open>parts[0]\<close> and \<open>parts.pop()\<close>; on an empty array both give \<open>undefined\<close>,
  which string concatenation prints as the word.\<close>

definition first_part :: "string list \<Rightarrow> string" where
  "first_part ps = (case ps of [] \<Rightarrow> ''undefined'' | p # _ \<Rightarrow> p)"

definition pop :: "string list \<Rightarrow> string" where
  "pop ps = (case rev ps of [] \<Rightarrow> ''undefined'' | p # _ \<Rightarrow> p)"

text \<open>The three replacements that derive a node id from a path:
  \<open>replace(/[\/\.]/g, '-')\<close>, \<open>replace(/^-|-$/g, '')\<close> and \<open>replace(/html$/g, '')\<close>.\<close>

definition replace_slash_dot :: "string \<Rightarrow> string" where
  "replace_slash_dot s = map (\<lambda>c. if c = CHR ''/'' \<or> c = CHR ''.'' then CHR ''-'' else c) s"

definition strip_leading_dash :: "string \<Rightarrow> string" where
  "strip_leading_dash s = (case s of [] \<Rightarrow> [] | c # cs \<Rightarrow> if c = CHR ''-'' then cs else s)"

definition strip_trailing_dash :: "string \<Rightarrow> string" where
  "strip_trailing_dash s = (if s \<noteq> [] \<and> last s = CHR ''-'' then butlast s else s)"

definition strip_edge_dashes :: "string \<Rightarrow> string" where
  "strip_edge_dashes s = strip_trailing_dash (strip_leading_dash s)"

definition strip_html_end :: "string \<Rightarrow> string" where
  "strip_html_end s = (if endsWith s ''html'' then take (length s - 4) s else s)"

definition path_to_id :: "string \<Rightarrow> string" where
  "path_to_id p = strip_html_end (strip_edge_dashes (replace_slash_dot p))"

subsection \<open>Nodes, edges and the search index\<close>

record node =
  id_node :: string
  label :: string
  path :: string
  cat :: string

record edge =
  source :: string
  target :: string

text \<open>An entry of search.json: \<open>href\<close> is always present, \<open>title\<close> may be missing.\<close>

record item =
  href :: string
  title :: "string option"

record graphData =
  nodes :: "node list"
  links :: "edge list"

definition mk_node :: "string \<Rightarrow> string \<Rightarrow> string \<Rightarrow> string \<Rightarrow> node" where
  "mk_node i l p c = \<lparr>id_node = i, label = l, path = p, cat = c\<rparr>"

definition mk_edge :: "string \<Rightarrow> string \<Rightarrow> edge" where
  "mk_edge s t = \<lparr>source = s, target = t\<rparr>"

definition coreNodes :: "node list" where
  "coreNodes =
     [mk_node ''home'' ''Home'' ''/'' ''nav'',
      mk_node ''about'' ''About'' ''/about.html'' ''nav'',
      mk_node ''notes'' ''Notes'' ''/notes/'' ''nav'',
      mk_node ''work'' ''Work'' ''/work/'' ''nav'',
      mk_node ''reading'' ''Reading'' ''/reading/'' ''nav'',
      mk_node ''contact'' ''Contact'' ''/contact_cv.html'' ''nav'']"

text \<open>The hand-written links the script starts with.\<close>

definition manualLinks :: "edge list" where
  "manualLinks =
     [mk_edge ''home'' ''notes'', mk_edge ''home'' ''work'', mk_edge ''home'' ''reading'',
      mk_edge ''home'' ''about'', mk_edge ''notes'' ''hello'', mk_edge ''notes'' ''monte-carlo'',
      mk_edge ''notes'' ''sal'', mk_edge ''notes'' ''risk-1'', mk_edge ''risk-1'' ''monte-carlo'',
      mk_edge ''risk-1'' ''risk-2'', mk_edge ''risk-2'' ''risk-1'', mk_edge ''risk-2'' ''risk-3'',
      mk_edge ''risk-2'' ''sal'', mk_edge ''risk-2'' ''heatwave'', mk_edge ''risk-3'' ''risk-1'',
      mk_edge ''risk-3'' ''risk-2'', mk_edge ''risk-3'' ''monte-carlo'', mk_edge ''risk-3'' ''sal'',
      mk_edge ''work'' ''heatwave'', mk_edge ''heatwave'' ''sal'', mk_edge ''heatwave'' ''risk-2'',
      mk_edge ''sal'' ''heatwave'', mk_edge ''monte-carlo'' ''risk-3'']"

subsection \<open>The node map of the index loader\<close>

text \<open>A JavaScript \<open>Map\<close> keeps its keys in insertion order; \<open>set\<close> on a key that is
  present replaces the value where it stands.\<close>

type_synonym 'v jsmap = "(string \<times> 'v) list"

definition map_has :: "'v jsmap \<Rightarrow> string \<Rightarrow> bool" where
  "map_has m k = (k \<in> set (map fst m))"

fun map_set :: "string \<Rightarrow> 'v \<Rightarrow> 'v jsmap \<Rightarrow> 'v jsmap" where
  "map_set k v [] = [(k, v)]"
| "map_set k v ((k', v') # m) = (if k' = k then (k, v) # m else (k', v') # map_set k v m)"

definition map_values :: "'v jsmap \<Rightarrow> 'v list" where
  "map_values m = map snd m"

definition category_of :: "string \<Rightarrow> string" where
  "category_of p =
     (if startsWith p ''/notes/'' then ''notes''
      else if startsWith p ''/work/'' then ''work''
      else if startsWith p ''/reading/'' then ''reading''
      else ''nav'')"

text \<open>\<open>item.title || path.split('/').pop()\<close>: a missing or empty title is falsy.\<close>

definition label_of :: "item \<Rightarrow> string \<Rightarrow> string" where
  "label_of it p =
     (case title it of
        None \<Rightarrow> pop (split_on CHR ''/'' p)
      | Some t \<Rightarrow> if t = [] then pop (split_on CHR ''/'' p) else t)"

definition add_item :: "node jsmap \<Rightarrow> item \<Rightarrow> node jsmap" where
  "add_item m it =
     (let p = CHR ''/'' # first_part (split_on CHR ''#'' (href it))
      in if \<not> map_has m p \<and> \<not> includes_str p ''index.html''
         then map_set p (mk_node (path_to_id p) (label_of it p) p (category_of p)) m
         else m)"

definition buildNodes :: "item list \<Rightarrow> node list" where
  "buildNodes searchData =
     map_values (foldl add_item (foldl (\<lambda>m n. map_set (path n) n m) [] coreNodes) searchData)"

subsection \<open>The graph model builder: structural links\<close>

text \<open>\<open>p.split('/').slice(0, -1).join('/')\<close>: the directory of a path.\<close>

definition dirname :: "string \<Rightarrow> string" where
  "dirname p = join ''/'' (butlast (split_on CHR ''/'' p))"

definition is_digit :: "char \<Rightarrow> bool" where
  "is_digit c = (c \<in> set ''0123456789'')"

text \<open>The pattern flag \<open>i\<close> compares letters without case; only ASCII letters occur in
  the patterns.\<close>

definition ascii_lower :: "char \<Rightarrow> char" where
  "ascii_lower c =
     (case map_of (zip ''ABCDEFGHIJKLMNOPQRSTUVWXYZ'' ''abcdefghijklmnopqrstuvwxyz'') c of
        None \<Rightarrow> c | Some l \<Rightarrow> l)"

text \<open>\<open>replace(/-\d+$/, '')\<close>: a final dash with one or more digits after it goes.\<close>

definition strip_dash_digits_end :: "string \<Rightarrow> string" where
  "strip_dash_digits_end s =
     (case dropWhile is_digit (rev s) of
        [] \<Rightarrow> s
      | c # cs \<Rightarrow> if takeWhile is_digit (rev s) \<noteq> [] \<and> c = CHR ''-'' then rev cs else s)"

text \<open>\<open>replace(/part-\d+/i, '')\<close> and \<open>replace(/series-\d+/i, '')\<close>: the leftmost place
  where the word (given in lower case) stands before one or more digits; the word and all
  the digits after it go.\<close>

definition match_word_digits :: "string \<Rightarrow> string \<Rightarrow> string option" where
  "match_word_digits w s =
     (if length w \<le> length s \<and> map ascii_lower (take (length w) s) = w
         \<and> takeWhile is_digit (drop (length w) s) \<noteq> []
      then Some (dropWhile is_digit (drop (length w) s)) else None)"

fun remove_word_digits :: "string \<Rightarrow> string \<Rightarrow> string" where
  "remove_word_digits w [] = []"
| "remove_word_digits w (c # cs) =
     (case match_word_digits w (c # cs) of
        Some rest \<Rightarrow> rest
      | None \<Rightarrow> c # remove_word_digits w cs)"

definition series_name :: "string \<Rightarrow> string" where
  "series_name p =
     remove_word_digits ''series-'' (remove_word_digits ''part-'' (strip_dash_digits_end p))"

text \<open>\<open>links.find(l => l.source === s && l.target === t)\<close> used as a condition.\<close>

definition has_link :: "edge list \<Rightarrow> string \<Rightarrow> string \<Rightarrow> bool" where
  "has_link ls s t = list_ex (\<lambda>l. source l = s \<and> target l = t) ls"

definition push_unique :: "edge list \<Rightarrow> edge \<Rightarrow> edge list" where
  "push_unique ls e = (if has_link ls (source e) (target e) then ls else ls @ [e])"

text \<open>Rules 1 and 4: every member of a section gets a link to the section's index node,
  found by one of its two paths.\<close>

definition index_links :: "string \<Rightarrow> string \<Rightarrow> node list \<Rightarrow> node list \<Rightarrow> edge list" where
  "index_links p1 p2 members ns =
     (case find (\<lambda>n. path n = p1 \<or> path n = p2) ns of
        None \<Rightarrow> []
      | Some ix \<Rightarrow>
          map (\<lambda>n. mk_edge (id_node n) (id_node ix))
            (filter (\<lambda>n. id_node n \<noteq> id_node ix) members))"

text \<open>Rule 2, the body of the inner loop: two notes below the same directory, which is
  not the notes root.\<close>

definition sibling_step :: "node \<Rightarrow> edge list \<Rightarrow> node \<Rightarrow> edge list" where
  "sibling_step note1 autoLinks note2 =
     (if id_node note1 \<noteq> id_node note2
         \<and> dirname (path note1) = dirname (path note2)
         \<and> dirname (path note1) \<noteq> ''/notes''
         \<and> length (dirname (path note1)) > 6
      then push_unique autoLinks (mk_edge (id_node note1) (id_node note2))
      else autoLinks)"

definition sibling_links :: "node list \<Rightarrow> edge list \<Rightarrow> edge list" where
  "sibling_links notesNodes autoLinks =
     foldl (\<lambda>acc note1. foldl (sibling_step note1) acc notesNodes) autoLinks notesNodes"

text \<open>Rule 3, the body of the inner loop: two notes of one series.\<close>

definition series_step :: "node \<Rightarrow> edge list \<Rightarrow> node \<Rightarrow> edge list" where
  "series_step note1 autoLinks note2 =
     (if id_node note1 \<noteq> id_node note2
         \<and> series_name (path note1) = series_name (path note2)
         \<and> length (series_name (path note1)) > 10
      then push_unique autoLinks (mk_edge (id_node note1) (id_node note2))
      else autoLinks)"

definition series_links :: "node list \<Rightarrow> edge list \<Rightarrow> edge list" where
  "series_links notesNodes autoLinks =
     foldl (\<lambda>acc note1. foldl (series_step note1) acc notesNodes) autoLinks notesNodes"

definition autoLinks :: "node list \<Rightarrow> edge list" where
  "autoLinks ns =
     (let notesNodes = filter (\<lambda>n. cat n = ''notes'') ns;
          rule1 = index_links ''/notes/'' ''/notes/index.html'' notesNodes ns;
          rule2 = sibling_links notesNodes rule1;
          rule3 = series_links notesNodes rule2;
          workNodes = filter (\<lambda>n. cat n = ''work'') ns
      in rule3 @ index_links ''/work/'' ''/work/index.html'' workNodes ns)"

definition mergeLinks :: "edge list \<Rightarrow> edge list \<Rightarrow> edge list" where
  "mergeLinks manual auto = foldl push_unique manual auto"

subsection \<open>Loading the index\<close>

text \<open>The handler that receives the parsed index: it sets the nodes and merges the
  structural links into the links the graph already has.\<close>

definition thenHandler :: "graphData \<Rightarrow> item list \<Rightarrow> graphData" where
  "thenHandler gd searchData =
     gd\<lparr>nodes := buildNodes searchData,
        links := mergeLinks (links gd) (autoLinks (buildNodes searchData))\<rparr>"

definition fallbackNodes :: "node list" where
  "fallbackNodes =
     [mk_node ''home'' ''Home'' ''/'' ''nav'',
      mk_node ''about'' ''About'' ''/about.html'' ''nav'',
      mk_node ''notes'' ''Notes'' ''/notes/'' ''nav'',
      mk_node ''work'' ''Work'' ''/work/'' ''nav'',
      mk_node ''reading'' ''Reading'' ''/reading/'' ''nav'',
      mk_node ''contact'' ''Contact'' ''/contact_cv.html'' ''nav'']"

definition catchHandler :: "graphData \<Rightarrow> graphData" where
  "catchHandler gd = gd\<lparr>nodes := fallbackNodes\<rparr>"

text \<open>A fetch either rejects (the network failed) or resolves with a response, whose
  \<open>ok\<close> flag tells the HTTP status and whose body may or may not parse as the index.\<close>

datatype js_error = NetworkFailure | BothPathsFailed | JsonSyntaxError

record response =
  ok :: bool
  json :: "item list option"

definition fetch_index :: "js_error + response \<Rightarrow> js_error + response \<Rightarrow> js_error + response" where
  "fetch_index primary fallback =
     (case primary of
        Inl e \<Rightarrow> Inl e
      | Inr res \<Rightarrow>
          if \<not> ok res then
            (case fallback of
               Inl e \<Rightarrow> Inl e
             | Inr res2 \<Rightarrow> if \<not> ok res2 then Inl BothPathsFailed else Inr res2)
          else Inr res)"

definition res_json :: "response \<Rightarrow> js_error + item list" where
  "res_json res = (case json res of None \<Rightarrow> Inl JsonSyntaxError | Some d \<Rightarrow> Inr d)"

definition initialGraphData :: graphData where
  "initialGraphData = \<lparr>nodes = [], links = manualLinks\<rparr>"

text \<open>The promise chain \<open>fetch(..).then(..).then(res => res.json()).then(..).catch(..)\<close>:
  an error of any step reaches the catch handler.\<close>

definition loadIndex :: "graphData \<Rightarrow> js_error + response \<Rightarrow> js_error + response \<Rightarrow> graphData" where
  "loadIndex gd primary fallback =
     (case fetch_index primary fallback of
        Inl e \<Rightarrow> catchHandler gd
      | Inr res \<Rightarrow>
          (case res_json res of
             Inl e \<Rightarrow> catchHandler gd
           | Inr searchData \<Rightarrow> thenHandler gd searchData))"

subsection \<open>The current page\<close>

text \<open>\<open>getCurrentPageId\<close>: the id of the node that matches \<open>window.location.pathname\<close>,
  or \<open>null\<close>.\<close>

definition getCurrentPageId :: "node list \<Rightarrow> string \<Rightarrow> string option" where
  "getCurrentPageId ns p =
     (case find (\<lambda>n. p = path n \<or> p = path n @ ''index.html'') ns of
        Some n \<Rightarrow> Some (id_node n)
      | None \<Rightarrow>
          (case find (\<lambda>n. (endsWith p ''/'' \<and> path n = p)
                         \<or> (endsWith (path n) ''/'' \<and> startsWith p (path n))
                         \<or> endsWith p (path n) \<or> endsWith (path n) p) ns of
             Some n \<Rightarrow> Some (id_node n)
           | None \<Rightarrow>
               if p = ''/'' \<or> p = ''/index.html'' \<or> endsWith p ''/index.html''
               then map_option id_node (find (\<lambda>n. path n = ''/'' \<or> id_node n = ''home'') ns)
               else None))"

text \<open>\<open>if (currentId)\<close>: \<open>null\<close> and the empty string are falsy.\<close>

definition truthy :: "string option \<Rightarrow> bool" where
  "truthy v = (case v of None \<Rightarrow> False | Some s \<Rightarrow> s \<noteq> [])"

subsection \<open>The force layout\<close>

text \<open>A node as the simulation leaves it: the fields of the node, its position and the
  pinned position of the current page's node.\<close>

record placed = node +
  x_coord :: real
  y_coord :: real
  fx :: "real option"
  fy :: "real option"

text \<open>The D3 force simulation is a library outside the script. It is a parameter here:
  \<open>sim_init\<close> stands for \<open>d3.forceSimulation(nodes)\<close> with the forces the script sets
  (built from the nodes, the links, the current id and the centre), \<open>sim_tick\<close> for
  \<open>simulation.tick()\<close>, and \<open>sim_pos\<close> for the \<open>x\<close> and \<open>y\<close> D3 has written into the
  node at an index of the array.\<close>

record 's simulation =
  sim_init :: "node list \<Rightarrow> edge list \<Rightarrow> string option \<Rightarrow> real \<Rightarrow> real \<Rightarrow> 's"
  sim_tick :: "'s \<Rightarrow> 's"
  sim_pos :: "'s \<Rightarrow> nat \<Rightarrow> real \<times> real"

fun find_index :: "('a \<Rightarrow> bool) \<Rightarrow> 'a list \<Rightarrow> nat option" where
  "find_index P [] = None"
| "find_index P (a # as) = (if P a then Some 0 else map_option Suc (find_index P as))"

definition place :: "node \<Rightarrow> real \<times> real \<Rightarrow> placed" where
  "place n xy =
     \<lparr>id_node = id_node n, label = label n, path = path n, cat = cat n,
      x_coord = fst xy, y_coord = snd xy, fx = None, fy = None\<rparr>"

definition pin :: "real \<Rightarrow> real \<Rightarrow> placed \<Rightarrow> placed" where
  "pin centerX centerY n =
     n\<lparr>x_coord := centerX, y_coord := centerY, fx := Some centerX, fy := Some centerY\<rparr>"

text \<open>\<open>Math.max(margin, Math.min(extent - margin, v))\<close>.\<close>

definition clamp :: "real \<Rightarrow> real \<Rightarrow> real \<Rightarrow> real" where
  "clamp margin extent v = max margin (min (extent - margin) v)"

definition clamp_node :: "real \<Rightarrow> real \<Rightarrow> real \<Rightarrow> string option \<Rightarrow> placed \<Rightarrow> placed" where
  "clamp_node margin width height currentId n =
     (if Some (id_node n) \<noteq> currentId
      then n\<lparr>x_coord := clamp margin width (x_coord n), y_coord := clamp margin height (y_coord n)\<rparr>
      else n)"

text \<open>The layout both views run: the simulation is built with the current node pinned
  at the centre, ticked a fixed number of times, the current node (the first node with
  the current id) is put back on the centre, and the nodes with another id are clamped.\<close>

definition layout ::
  "'s simulation \<Rightarrow> nat \<Rightarrow> real \<Rightarrow> real \<Rightarrow> real \<Rightarrow> string option \<Rightarrow> node list \<Rightarrow> edge list
     \<Rightarrow> placed list" where
  "layout sim ticks margin width height currentId ns ls =
     (let centerX = width / 2;
          centerY = height / 2;
          s = (sim_tick sim ^^ ticks) (sim_init sim ns ls currentId centerX centerY);
          ticked = map (\<lambda>(i, n). place n (sim_pos sim s i)) (enumerate 0 ns);
          pinned = (case find_index (\<lambda>n. Some (id_node n) = currentId) ns of
                      None \<Rightarrow> ticked
                    | Some i \<Rightarrow> ticked[i := pin centerX centerY (ticked ! i)])
      in map (clamp_node margin width height currentId) pinned)"

definition has_node :: "node list \<Rightarrow> string \<Rightarrow> bool" where
  "has_node ns i = list_ex (\<lambda>n. id_node n = i) ns"

text \<open>\<open>renderMiniGraph\<close>. The container, when it is there, has a client width and height;
  \<open>container.clientWidth || 180\<close> takes 180 for 0.\<close>

datatype mini_view =
    ContainerMissing
  | D3Missing
  | LoadingPlaceholder
  | MiniDrawn "placed list" "edge list"

definition renderMiniGraph ::
  "'s simulation \<Rightarrow> (nat \<times> nat) option \<Rightarrow> bool \<Rightarrow> graphData \<Rightarrow> string \<Rightarrow> mini_view" where
  "renderMiniGraph sim container d3_loaded gd pathname =
     (case container of
        None \<Rightarrow> ContainerMissing
      | Some (clientWidth, clientHeight) \<Rightarrow>
          if \<not> d3_loaded then D3Missing
          else if nodes gd = [] then LoadingPlaceholder
          else
            (let width = (if clientWidth = 0 then 180 else real clientWidth);
                 height = (if clientHeight = 0 then 150 else real clientHeight);
                 currentId = getCurrentPageId (nodes gd) pathname;
                 ls = filter (\<lambda>l. has_node (nodes gd) (source l) \<and> has_node (nodes gd) (target l))
                        (links gd)
             in MiniDrawn (layout sim 150 15 width height currentId (nodes gd) ls) ls))"

subsection \<open>The interactive viewer\<close>

record view =
  modalActive :: bool
  activeCategories :: "string set"
  searchQuery :: string
  focusMode :: bool
  focusedNodeIndex :: int
  keyboardFocusableNodes :: "node list"

definition initialView :: view where
  "initialView =
     \<lparr>modalActive = False,
      activeCategories = {''all'', ''notes'', ''work'', ''reading'', ''nav''},
      searchQuery = [], focusMode = False, focusedNodeIndex = - 1,
      keyboardFocusableNodes = []\<rparr>"

text \<open>A character stands for a code unit below 256. Among these \<open>s.toLowerCase()\<close> maps
  the capital letters, A to Z and the capitals from 0xC0 to 0xDE (0xD7, the multiplication
  sign, is no letter), to the letter 0x20 further on; and \<open>s.trim()\<close> strips the white space
  and the line ends: tab, line feed, vertical tab, form feed, carriage return, space and
  the no-break space 0xA0.\<close>

definition lower_char :: "char \<Rightarrow> char" where
  "lower_char c =
     (if (0x41 \<le> (of_char c :: nat) \<and> (of_char c :: nat) \<le> 0x5A)
         \<or> (0xC0 \<le> (of_char c :: nat) \<and> (of_char c :: nat) \<le> 0xDE \<and> (of_char c :: nat) \<noteq> 0xD7)
      then char_of ((of_char c :: nat) + 0x20) else c)"

definition toLowerCase :: "string \<Rightarrow> string" where
  "toLowerCase s = map lower_char s"

definition is_space :: "char \<Rightarrow> bool" where
  "is_space c =
     (c \<in> set [CHR 0x09, CHR 0x0A, CHR 0x0B, CHR 0x0C, CHR 0x0D, CHR 0x20, CHR 0xA0])"

definition trim :: "string \<Rightarrow> string" where
  "trim s = rev (dropWhile is_space (rev (dropWhile is_space s)))"

text \<open>The ids at either end of a link that touches the current node.\<close>

definition connectedNodes :: "edge list \<Rightarrow> string option \<Rightarrow> string set" where
  "connectedNodes ls currentId =
     (if truthy currentId
      then set (concat (map (\<lambda>l. [source l, target l])
                  (filter (\<lambda>l. Some (source l) = currentId \<or> Some (target l) = currentId) ls)))
      else {})"

text \<open>The nodes \<open>initGraph\<close> keeps: the category filter (skipped while \<open>all\<close> is active),
  the search filter, the focus filter.\<close>

definition visibleNodes :: "graphData \<Rightarrow> string option \<Rightarrow> view \<Rightarrow> node list" where
  "visibleNodes gd currentId v =
     (let byCat = (if ''all'' \<notin> activeCategories v
                   then filter (\<lambda>n. cat n \<in> activeCategories v) (nodes gd)
                   else nodes gd);
          bySearch = (if searchQuery v \<noteq> []
                      then filter (\<lambda>n. includes_str (toLowerCase (label n)) (toLowerCase (searchQuery v))
                                     \<or> includes_str (toLowerCase (path n)) (toLowerCase (searchQuery v))
                                     \<or> includes_str (toLowerCase (id_node n)) (toLowerCase (searchQuery v)))
                             byCat
                      else byCat)
      in if focusMode v \<and> truthy currentId
         then filter (\<lambda>n. id_node n \<in> connectedNodes (links gd) currentId) bySearch
         else bySearch)"

definition visibleLinks :: "graphData \<Rightarrow> node list \<Rightarrow> edge list" where
  "visibleLinks gd ns =
     filter (\<lambda>l. has_node ns (source l) \<and> has_node ns (target l)) (links gd)"

text \<open>\<open>initGraph\<close> returns at once while there are no nodes (D3 and the container of
  the modal are there once the script runs). Otherwise it stores the visible nodes for the
  keyboard, which is its effect on the view, and draws them, laid out, with the visible
  links. The degree it attaches to each node only sets the radius of the circle drawn and
  is left out.\<close>

definition initGraph :: "graphData \<Rightarrow> string \<Rightarrow> view \<Rightarrow> view" where
  "initGraph gd pathname v =
     (if nodes gd = [] then v
      else v\<lparr>keyboardFocusableNodes := visibleNodes gd (getCurrentPageId (nodes gd) pathname) v\<rparr>)"

record drawing =
  drawn_nodes :: "placed list"
  drawn_links :: "edge list"

definition initGraph_draw ::
  "'s simulation \<Rightarrow> nat \<times> nat \<Rightarrow> graphData \<Rightarrow> string \<Rightarrow> view \<Rightarrow> drawing option" where
  "initGraph_draw sim container gd pathname v =
     (if nodes gd = [] then None
      else
        (let width = real (fst container);
             height = real (snd container);
             currentId = getCurrentPageId (nodes gd) pathname;
             ns = visibleNodes gd currentId v;
             ls = visibleLinks gd ns
         in Some \<lparr>drawn_nodes = layout sim 200 50 width height currentId ns ls,
                  drawn_links = ls\<rparr>))"

text \<open>The click handler of the filter buttons, on the set of active categories.
  \<open>Set.prototype.add\<close> takes one value, so \<open>add('all', 'notes', 'models', 'projects', 'nav')\<close>
  adds \<open>all\<close> alone.\<close>

definition toggleCategory :: "string \<Rightarrow> string set \<Rightarrow> string set" where
  "toggleCategory c A =
     (if c = ''all'' then
        (if ''all'' \<in> A then insert ''all'' {} else insert ''all'' {})
      else if c \<in> A then (A - {c}) - {''all''}
      else if list_all (\<lambda>k. k \<in> insert c A) [''notes'', ''work'', ''reading'', ''nav'']
           then insert ''all'' (insert c A)
           else insert c A)"

text \<open>The events of the viewer: opening (a click on the mini widget or the floating
  button, or the key \<open>g\<close>) and closing the modal, a click on a filter button with its
  \<open>data-cat\<close>, typing in the search field (the event carries the value of the field),
  Escape in the search field, a click on the focus button, and an arrow key pressed
  outside the text inputs.\<close>

datatype arrow = ArrowDown | ArrowUp | ArrowLeft | ArrowRight

datatype event =
    OpenGraph
  | CloseGraph
  | FilterClick string
  | SearchInput string
  | SearchEscape
  | FocusModeClick
  | Arrow arrow

text \<open>\<open>keyboardFocusableNodes[focusedNodeIndex]\<close> is a node only inside the array.\<close>

definition focusedNode :: "view \<Rightarrow> node option" where
  "focusedNode v =
     (if 0 \<le> focusedNodeIndex v \<and> focusedNodeIndex v < int (length (keyboardFocusableNodes v))
      then Some (keyboardFocusableNodes v ! nat (focusedNodeIndex v)) else None)"

text \<open>The arrow keys: nothing happens while the modal is closed or no node is visible;
  down and right set the index to min(index + 1, last index), up and left set it to
  max(index - 1, 0); the graph is drawn again when the index points at a node.\<close>

definition arrowKey :: "graphData \<Rightarrow> string \<Rightarrow> arrow \<Rightarrow> view \<Rightarrow> view" where
  "arrowKey gd pathname k v =
     (if \<not> modalActive v then v
      else if length (keyboardFocusableNodes v) = 0 then v
      else
        (let v' = (if k = ArrowDown \<or> k = ArrowRight
                   then v\<lparr>focusedNodeIndex :=
                            min (focusedNodeIndex v + 1) (int (length (keyboardFocusableNodes v)) - 1)\<rparr>
                   else v\<lparr>focusedNodeIndex := max (focusedNodeIndex v - 1) 0\<rparr>)
         in case focusedNode v' of None \<Rightarrow> v' | Some n \<Rightarrow> initGraph gd pathname v'))"

text \<open>The handlers. Escape in the search field clears the search in the handler of the
  field and then, at the document, closes the modal.\<close>

definition handle :: "graphData \<Rightarrow> string \<Rightarrow> view \<Rightarrow> event \<Rightarrow> view" where
  "handle gd pathname v e =
     (case e of
        OpenGraph \<Rightarrow> initGraph gd pathname (v\<lparr>modalActive := True\<rparr>)
      | CloseGraph \<Rightarrow> v\<lparr>modalActive := False\<rparr>
      | FilterClick c \<Rightarrow>
          initGraph gd pathname (v\<lparr>activeCategories := toggleCategory c (activeCategories v)\<rparr>)
      | SearchInput typed \<Rightarrow>
          initGraph gd pathname (v\<lparr>searchQuery := trim typed, focusedNodeIndex := - 1\<rparr>)
      | SearchEscape \<Rightarrow>
          (initGraph gd pathname (v\<lparr>searchQuery := [], focusedNodeIndex := - 1\<rparr>))
            \<lparr>modalActive := False\<rparr>
      | FocusModeClick \<Rightarrow> initGraph gd pathname (v\<lparr>focusMode := \<not> focusMode v\<rparr>)
      | Arrow k \<Rightarrow> arrowKey gd pathname k v)"

subsection \<open>Backlinks and related content\<close>

text \<open>\<open>Array.from(new Map(xs.map(n => [n.path, n])).values())\<close>.\<close>

definition dedupe_by_path :: "node list \<Rightarrow> node list" where
  "dedupe_by_path xs = map_values (foldl (\<lambda>m n. map_set (path n) n m) [] xs)"

text \<open>The links of the graph carry ids (the views lay out copies of them), so of the two
  branches on \<open>typeof link.target\<close> the one for strings is taken.\<close>

definition backlinks :: "graphData \<Rightarrow> string \<Rightarrow> string \<Rightarrow> node list" where
  "backlinks gd currentId currentPath =
     concat (map (\<lambda>l. if target l = currentId
                       then (case find (\<lambda>n. id_node n = source l) (nodes gd) of
                               None \<Rightarrow> []
                             | Some sourceNode \<Rightarrow>
                                 if path sourceNode \<noteq> currentPath then [sourceNode] else [])
                       else []) (links gd))"

definition related :: "graphData \<Rightarrow> string \<Rightarrow> string \<Rightarrow> node list" where
  "related gd currentId currentPath =
     concat (map (\<lambda>l. if source l = currentId
                       then (case find (\<lambda>n. id_node n = target l) (nodes gd) of
                               None \<Rightarrow> []
                             | Some targetNode \<Rightarrow>
                                 if path targetNode \<noteq> currentPath then [targetNode] else [])
                       else []) (links gd))"

text \<open>What \<open>injectBacklinksAndRelated\<close> does: wait for the graph, leave the homepage and
  an unknown page alone, and otherwise put the two lists into the content area (a list
  that is empty gets no section).\<close>

datatype augmentation =
    RetryLater
  | Skipped
  | NoContentArea
  | Injected "node list" "node list"

definition injectBacklinksAndRelated :: "graphData \<Rightarrow> string \<Rightarrow> bool \<Rightarrow> augmentation" where
  "injectBacklinksAndRelated gd currentPath contentArea =
     (if nodes gd = [] then RetryLater
      else if currentPath = [] \<or> currentPath = ''/'' \<or> currentPath = ''/index.html'' then Skipped
      else
        (case getCurrentPageId (nodes gd) currentPath of
           None \<Rightarrow> Skipped
         | Some currentId \<Rightarrow>
             if currentId = [] then Skipped
             else if \<not> contentArea then NoContentArea
             else Injected (dedupe_by_path (backlinks gd currentId currentPath))
                           (dedupe_by_path (related gd currentId currentPath))))"

subsection \<open>The recent pages in local storage\<close>

text \<open>The value under the key \<open>graph-recent-pages\<close> is a string. It is kept here as
  what \<open>JSON.parse\<close> makes of it: \<open>Parsable v\<close> for a text that parses to the value \<open>v\<close>
  (\<open>JSON.stringify\<close> writes such a text), \<open>Unparsable s\<close> for a string \<open>s\<close> on which
  \<open>JSON.parse\<close> throws. Numbers are the integers, as the time stamps are.\<close>

datatype json =
    JNull
  | JBool bool
  | JNum int
  | JStr string
  | JArr "json list"
  | JObj "(string \<times> json) list"

datatype stored = Unparsable string | Parsable json

datatype storage_error = SecurityError | QuotaExceededError | SyntaxError | TypeError

text \<open>Local storage may refuse every access, or only refuse to write.\<close>

record storage =
  accessible :: bool
  writable :: bool
  stored_item :: "stored option"

definition getItem :: "storage \<Rightarrow> storage_error + stored option" where
  "getItem st = (if accessible st then Inr (stored_item st) else Inl SecurityError)"

definition setItem :: "storage \<Rightarrow> json \<Rightarrow> storage_error + storage" where
  "setItem st v =
     (if \<not> accessible st then Inl SecurityError
      else if \<not> writable st then Inl QuotaExceededError
      else Inr (st\<lparr>stored_item := Some (Parsable v)\<rparr>))"

text \<open>The body of the \<open>try\<close> in \<open>getRecentPages\<close>: \<open>recent ? JSON.parse(recent) : []\<close>,
  where \<open>null\<close> and the empty string are falsy.\<close>

definition getRecentPages_try :: "storage \<Rightarrow> storage_error + json" where
  "getRecentPages_try st =
     (case getItem st of
        Inl e \<Rightarrow> Inl e
      | Inr None \<Rightarrow> Inr (JArr [])
      | Inr (Some (Unparsable s)) \<Rightarrow> if s = [] then Inr (JArr []) else Inl SyntaxError
      | Inr (Some (Parsable v)) \<Rightarrow> Inr v)"

definition getRecentPages :: "storage \<Rightarrow> json" where
  "getRecentPages st = (case getRecentPages_try st of Inl e \<Rightarrow> JArr [] | Inr v \<Rightarrow> v)"

text \<open>\<open>p.path\<close>: a type error on \<open>null\<close>, \<open>undefined\<close> on a value without the property.\<close>

definition get_path :: "json \<Rightarrow> storage_error + json option" where
  "get_path p =
     (case p of
        JNull \<Rightarrow> Inl TypeError
      | JObj kvs \<Rightarrow> Inr (map_of kvs ''path'')
      | _ \<Rightarrow> Inr None)"

text \<open>\<open>recent.filter(p => p.path !== path)\<close> on the elements of an array.\<close>

fun filter_other_paths :: "string \<Rightarrow> json list \<Rightarrow> storage_error + json list" where
  "filter_other_paths pa [] = Inr []"
| "filter_other_paths pa (p # ps) =
     (case get_path p of
        Inl e \<Rightarrow> Inl e
      | Inr v \<Rightarrow>
          (case filter_other_paths pa ps of
             Inl e \<Rightarrow> Inl e
           | Inr rest \<Rightarrow> Inr (if v \<noteq> Some (JStr pa) then p # rest else rest)))"

definition recent_entry :: "string \<Rightarrow> int \<Rightarrow> json" where
  "recent_entry pa now = JObj [(''path'', JStr pa), (''timestamp'', JNum now)]"

text \<open>The body of the \<open>try\<close> in \<open>addRecentPage\<close>; \<open>now\<close> is \<open>Date.now()\<close>. A value that is
  not an array has no \<open>filter\<close>.\<close>

definition addRecentPage_try :: "string \<Rightarrow> int \<Rightarrow> storage \<Rightarrow> storage_error + storage" where
  "addRecentPage_try pa now st =
     (case getRecentPages st of
        JArr recent \<Rightarrow>
          (case filter_other_paths pa recent of
             Inl e \<Rightarrow> Inl e
           | Inr others \<Rightarrow> setItem st (JArr (take 10 (recent_entry pa now # others))))
      | _ \<Rightarrow> Inl TypeError)"

definition addRecentPage :: "string \<Rightarrow> int \<Rightarrow> storage \<Rightarrow> storage" where
  "addRecentPage pa now st = (case addRecentPage_try pa now st of Inl e \<Rightarrow> st | Inr st' \<Rightarrow> st')"

text \<open>The script reads the paths of the log once, with
  \<open>getRecentPages().map(p => p.path)\<close>, outside any \<open>try\<close>: a value that is not an array
  has no \<open>map\<close>, and \<open>null\<close> has no \<open>path\<close>.\<close>

fun paths_of :: "json list \<Rightarrow> storage_error + json option list" where
  "paths_of [] = Inr []"
| "paths_of (p # ps) =
     (case get_path p of
        Inl e \<Rightarrow> Inl e
      | Inr v \<Rightarrow> (case paths_of ps of Inl e \<Rightarrow> Inl e | Inr vs \<Rightarrow> Inr (v # vs)))"

definition recentPages :: "storage \<Rightarrow> storage_error + json option list" where
  "recentPages st = (case getRecentPages st of JArr es \<Rightarrow> paths_of es | _ \<Rightarrow> Inl TypeError)"

text \<open>For the statements: the entries of the log are the elements of the array that
  \<open>getRecentPages\<close> returns (none when it returns another value), and the path of an entry
  is its \<open>path\<close> (none when it has none).\<close>

definition log_entries :: "storage \<Rightarrow> json list" where
  "log_entries st = (case getRecentPages st of JArr es \<Rightarrow> es | _ \<Rightarrow> [])"

definition entry_path :: "json \<Rightarrow> json option" where
  "entry_path p = (case get_path p of Inl e \<Rightarrow> None | Inr v \<Rightarrow> v)"

text \<open>A run of page loads: each adds its path at its time.\<close>

definition visit :: "storage \<Rightarrow> string \<times> int \<Rightarrow> storage" where
  "visit st pt = addRecentPage (fst pt) (snd pt) st"

subsection \<open>Notions used in the statements\<close>


text \<open>A node map whose keys are distinct and are the paths of its nodes.\<close>

definition keyed :: "node jsmap \<Rightarrow> bool" where
  "keyed m = (distinct (map fst m) \<and> (\<forall>(k, n) \<in> set m. path n = k))"


text \<open>An index the site generator could write: two notes whose paths differ in one
  character, a dot against a dash.\<close>

definition clash_index :: "item list" where
  "clash_index =
     [\<lparr>href = ''notes/climate/sal.html'', title = Some ''SAL''\<rparr>,
      \<lparr>href = ''notes/climate-sal.html'', title = Some ''Climate SAL''\<rparr>]"

text \<open>Either fetch of the index fails: it rejects, or its response is not ok.\<close>

definition fetch_failed :: "js_error + response \<Rightarrow> bool" where
  "fetch_failed r = (case r of Inl e \<Rightarrow> True | Inr res \<Rightarrow> \<not> ok res)"

text \<open>The position the simulation has given the node at an index when the ticks are done.\<close>

definition ticked_at ::
  "'s simulation \<Rightarrow> nat \<Rightarrow> real \<Rightarrow> real \<Rightarrow> string option \<Rightarrow> node list \<Rightarrow> edge list \<Rightarrow> nat
     \<Rightarrow> real \<times> real" where
  "ticked_at sim ticks width height currentId ns ls i =
     sim_pos sim ((sim_tick sim ^^ ticks) (sim_init sim ns ls currentId (width / 2) (height / 2))) i"

text \<open>What the layout is to achieve for the nodes \<open>ns\<close>, the positions \<open>pos\<close> the
  simulation has left them at, and their placed copies \<open>L\<close>. No other node shares the
  id of the current page when at most one node has it. The current page is centred when
  every node with the current id sits on the centre. The others are clamped when every
  node with another id has each coordinate set to max(margin, min(extent - margin, c)) of
  the coordinate c the simulation left, which is between the margins where the viewport
  is at least two margins wide.\<close>

definition current_id_unique :: "string option \<Rightarrow> node list \<Rightarrow> bool" where
  "current_id_unique currentId ns =
     (length (filter (\<lambda>n. Some (id_node n) = currentId) ns) \<le> 1)"

definition current_centred ::
  "real \<Rightarrow> real \<Rightarrow> string option \<Rightarrow> node list \<Rightarrow> placed list \<Rightarrow> bool" where
  "current_centred width height currentId ns L =
     (\<forall>i < length ns.
        Some (id_node (ns ! i)) = currentId \<longrightarrow>
          x_coord (L ! i) = width / 2 \<and> y_coord (L ! i) = height / 2)"

definition others_clamped ::
  "real \<Rightarrow> real \<Rightarrow> real \<Rightarrow> string option \<Rightarrow> node list \<Rightarrow> (nat \<Rightarrow> real \<times> real) \<Rightarrow> placed list
     \<Rightarrow> bool" where
  "others_clamped margin width height currentId ns pos L =
     (\<forall>i < length ns.
        Some (id_node (ns ! i)) \<noteq> currentId \<longrightarrow>
          x_coord (L ! i) = max margin (min (width - margin) (fst (pos i)))
          \<and> y_coord (L ! i) = max margin (min (height - margin) (snd (pos i)))
          \<and> (2 * margin \<le> width \<longrightarrow>
                margin \<le> x_coord (L ! i) \<and> x_coord (L ! i) \<le> width - margin)
          \<and> (2 * margin \<le> height \<longrightarrow>
                margin \<le> y_coord (L ! i) \<and> y_coord (L ! i) \<le> height - margin))"

text \<open>Concrete inputs for the statements below. \<open>resting\<close> is a simulation that leaves
  every node at the origin; \<open>offline_graph\<close> is the graph after both fetches failed;
  \<open>notes_graph\<close> is the graph of an index with one note.\<close>

definition resting :: "unit simulation" where
  "resting = \<lparr>sim_init = (\<lambda>ns ls c cx cy. ()), sim_tick = (\<lambda>s. s), sim_pos = (\<lambda>s i. (0, 0))\<rparr>"

definition offline_graph :: graphData where
  "offline_graph = loadIndex initialGraphData (Inl NetworkFailure) (Inl NetworkFailure)"

definition notes_index :: "item list" where
  "notes_index = [\<lparr>href = ''notes/climate/sal.html'', title = Some ''SAL''\<rparr>]"

definition notes_graph :: graphData where
  "notes_graph =
     loadIndex initialGraphData (Inr \<lparr>ok = True, json = Some notes_index\<rparr>) (Inl NetworkFailure)"

definition narrow_mini :: "placed list" where
  "narrow_mini =
     (case renderMiniGraph resting (Some (10, 10)) True offline_graph ''/'' of
        MiniDrawn L ls \<Rightarrow> L | _ \<Rightarrow> [])"

definition wide_mini :: "placed list" where
  "wide_mini =
     (case renderMiniGraph resting (Some (180, 150)) True offline_graph ''/'' of
        MiniDrawn L ls \<Rightarrow> L | _ \<Rightarrow> [])"

definition wide_full :: "placed list" where
  "wide_full =
     (case initGraph_draw resting (800, 600) offline_graph ''/'' initialView of
        Some d \<Rightarrow> drawn_nodes d | None \<Rightarrow> [])"

text \<open>The graph of \<open>clash_index\<close>, whose two notes get one id, and its mini view on the
  page of the second note.\<close>

definition clash_graph :: graphData where
  "clash_graph =
     loadIndex initialGraphData (Inr \<lparr>ok = True, json = Some clash_index\<rparr>) (Inl NetworkFailure)"

definition clash_mini :: "placed list" where
  "clash_mini =
     (case renderMiniGraph resting (Some (180, 150)) True clash_graph ''/notes/climate-sal.html'' of
        MiniDrawn L ls \<Rightarrow> L | _ \<Rightarrow> [])"

definition all_only_view :: view where
  "all_only_view = foldl (handle offline_graph ''/'') initialView [OpenGraph, FilterClick ''all'']"

definition work_off_view :: view where
  "work_off_view = foldl (handle notes_graph ''/'') initialView [OpenGraph, FilterClick ''work'']"

definition work_off_drawing :: drawing where
  "work_off_drawing =
     (case initGraph_draw resting (800, 600) notes_graph ''/'' work_off_view of
        Some d \<Rightarrow> d | None \<Rightarrow> \<lparr>drawn_nodes = [], drawn_links = []\<rparr>)"




definition sal_node :: node where
  "sal_node = mk_node ''notes-climate-sal-'' ''SAL'' ''/notes/climate/sal.html'' ''notes''"




text \<open>The log as \<open>addRecentPage\<close> writes it: at most ten entries, each an object with a
  path and a time stamp, no path twice. A storage holds a log when the key is absent or
  its value parses to such an array.\<close>

definition is_entry :: "json \<Rightarrow> bool" where
  "is_entry e =
     (case e of
        JObj [(k1, JStr p), (k2, JNum t)] \<Rightarrow> k1 = ''path'' \<and> k2 = ''timestamp''
      | _ \<Rightarrow> False)"

definition is_log :: "json list \<Rightarrow> bool" where
  "is_log es = (length es \<le> 10 \<and> list_all is_entry es \<and> distinct (map entry_path es))"

definition log_state :: "storage \<Rightarrow> bool" where
  "log_state st =
     (case stored_item st of
        None \<Rightarrow> True
      | Some (Parsable (JArr es)) \<Rightarrow> is_log es
      | Some _ \<Rightarrow> False)"

text \<open>Concrete storages: a working one with the key absent, one that refuses every
  access, one that can be read and not written, and a working one whose value does not
  parse; and three page loads, the last two of the same page.\<close>

definition fresh_storage :: storage where
  "fresh_storage = \<lparr>accessible = True, writable = True, stored_item = None\<rparr>"

definition blocked_storage :: storage where
  "blocked_storage = \<lparr>accessible = False, writable = False, stored_item = None\<rparr>"

definition full_storage :: storage where
  "full_storage = \<lparr>accessible = True, writable = False, stored_item = None\<rparr>"

definition garbled_storage :: storage where
  "garbled_storage =
     \<lparr>accessible = True, writable = True, stored_item = Some (Unparsable ''[{oops'')\<rparr>"

definition three_visits :: "(string \<times> int) list" where
  "three_visits = [(''/notes/'', 1), (''/work/'', 2), (''/work/'', 3)]"

text \<open>A run of the viewer on the graph with one note: the modal is opened, the focus is
  moved down three times, the Nav filter is switched off, the focus is moved up.\<close>

definition stale_focus_events :: "event list" where
  "stale_focus_events =
     [OpenGraph, Arrow ArrowDown, Arrow ArrowDown, Arrow ArrowDown, FilterClick ''nav'', Arrow ArrowUp]"

definition stale_focus_view :: view where
  "stale_focus_view = foldl (handle notes_graph ''/'') initialView stale_focus_events"

text \<open>Backlinks and related content in the words of the specification: the nodes at the
  source of a link whose target is the current id, and the nodes at the target of a link
  whose source is the current id, the current page itself left out. A list presents a set
  of nodes by path when it holds nodes of the set only, shows every path of the set, and
  shows no path twice.\<close>

definition linking_in :: "graphData \<Rightarrow> string \<Rightarrow> string \<Rightarrow> node set" where
  "linking_in gd currentId currentPath =
     {n \<in> set (nodes gd). path n \<noteq> currentPath
        \<and> (\<exists>l \<in> set (links gd). target l = currentId \<and> source l = id_node n)}"

definition linked_out :: "graphData \<Rightarrow> string \<Rightarrow> string \<Rightarrow> node set" where
  "linked_out gd currentId currentPath =
     {n \<in> set (nodes gd). path n \<noteq> currentPath
        \<and> (\<exists>l \<in> set (links gd). source l = currentId \<and> target l = id_node n)}"

definition lists_by_path :: "node list \<Rightarrow> node set \<Rightarrow> bool" where
  "lists_by_path xs S = (set xs \<subseteq> S \<and> path ` set xs = path ` S \<and> distinct (map path xs))"

text \<open>The home page, and the second note of the index with the two notes.\<close>

definition home_node :: node where
  "home_node = mk_node ''home'' ''Home'' ''/'' ''nav''"

definition climate_sal_node :: node where
  "climate_sal_node =
     mk_node ''notes-climate-sal-'' ''Climate SAL'' ''/notes/climate-sal.html'' ''notes''"

text \<open>The example of the specification: nodes a and b, one link from a to b.\<close>

definition node_a :: node where
  "node_a = mk_node ''a'' ''A'' ''/a'' ''nav''"

definition node_b :: node where
  "node_b = mk_node ''b'' ''B'' ''/b'' ''nav''"

definition ab_graph :: graphData where
  "ab_graph = \<lparr>nodes = [node_a, node_b], links = [mk_edge ''a'' ''b'']\<rparr>"

section \<open>Properties\<close>

subsection \<open>The node map\<close>

lemma map_set_fst:
  "map fst (map_set k v m) = (if k \<in> set (map fst m) then map fst m else map fst m @ [k])"
  by (induction m) (auto simp: image_iff, force)

lemma map_set_distinct: "distinct (map fst m) \<Longrightarrow> distinct (map fst (map_set k v m))"
  by (simp add: map_set_fst)

lemma map_set_values: "set (map_set k v m) \<subseteq> insert (k, v) (set m)"
  by (induction m) (auto split: if_splits)

lemma keyed_map_set: "keyed m \<Longrightarrow> path n = k \<Longrightarrow> keyed (map_set k n m)"
  unfolding keyed_def using map_set_distinct [of m k n] map_set_values [of k n m]
  by auto




lemma keyed_paths: "keyed m \<Longrightarrow> map path (map_values m) = map fst m"
  by (induction m) (auto simp: keyed_def map_values_def)











subsection \<open>C5: the nodes of the index loader\<close>



subsection \<open>The layout\<close>

lemma find_index_Some:
  "find_index P xs = Some i \<Longrightarrow> i < length xs \<and> P (xs ! i) \<and> (\<forall>j<i. \<not> P (xs ! j))"
proof (induction xs arbitrary: i)
  case Nil
  then show ?case by simp
next
  case (Cons a xs)
  show ?case
  proof (cases "P a")
    case True
    with Cons.prems show ?thesis by simp
  next
    case False
    with Cons.prems obtain k where k: "find_index P xs = Some k" "i = Suc k" by auto
    from Cons.IH [OF k(1)] False k(2) show ?thesis
      by (auto simp: nth_Cons split: nat.splits)
  qed
qed

lemma find_index_None: "find_index P xs = None \<Longrightarrow> \<forall>x \<in> set xs. \<not> P x"
  by (induction xs) (auto split: if_splits)

lemma find_index_exists: "\<exists>x \<in> set xs. P x \<Longrightarrow> \<exists>i. find_index P xs = Some i"
  using find_index_None [of P xs] by (cases "find_index P xs") auto

lemma layout_length: "length (layout sim t m w h cur ns ls) = length ns"
  by (simp add: layout_def Let_def split: option.splits)

lemma layout_nth:
  assumes "i < length ns"
  shows "layout sim t m w h cur ns ls ! i =
     clamp_node m w h cur
       ((if find_index (\<lambda>n. Some (id_node n) = cur) ns = Some i then pin (w / 2) (h / 2) else (\<lambda>n. n))
          (place (ns ! i) (ticked_at sim t w h cur ns ls i)))"
  using assms
  by (auto simp: layout_def Let_def ticked_at_def nth_enumerate_eq nth_list_update
      split: option.splits)

lemma layout_node_fields:
  assumes "i < length ns"
  shows "id_node (layout sim t m w h cur ns ls ! i) = id_node (ns ! i)"
    and "cat (layout sim t m w h cur ns ls ! i) = cat (ns ! i)"
    and "path (layout sim t m w h cur ns ls ! i) = path (ns ! i)"
    and "label (layout sim t m w h cur ns ls ! i) = label (ns ! i)"
  using assms by (simp_all add: layout_nth clamp_node_def pin_def place_def)

lemma layout_ids: "map id_node (layout sim t m w h cur ns ls) = map id_node ns"
  by (rule nth_equalityI) (simp_all add: layout_length layout_node_fields)

lemma layout_cats: "map cat (layout sim t m w h cur ns ls) = map cat ns"
  by (rule nth_equalityI) (simp_all add: layout_length layout_node_fields)

lemma layout_current:
  assumes "find_index (\<lambda>n. Some (id_node n) = cur) ns = Some i"
  shows "x_coord (layout sim t m w h cur ns ls ! i) = w / 2"
    and "y_coord (layout sim t m w h cur ns ls ! i) = h / 2"
    and "fx (layout sim t m w h cur ns ls ! i) = Some (w / 2)"
    and "fy (layout sim t m w h cur ns ls ! i) = Some (h / 2)"
  using find_index_Some [OF assms] assms
  by (simp_all add: layout_nth clamp_node_def pin_def place_def)

lemma layout_other:
  assumes "i < length ns" "Some (id_node (ns ! i)) \<noteq> cur"
  shows "x_coord (layout sim t m w h cur ns ls ! i) = clamp m w (fst (ticked_at sim t w h cur ns ls i))"
    and "y_coord (layout sim t m w h cur ns ls ! i) = clamp m h (snd (ticked_at sim t w h cur ns ls i))"
proof -
  have "find_index (\<lambda>n. Some (id_node n) = cur) ns \<noteq> Some i"
    using find_index_Some [of "\<lambda>n. Some (id_node n) = cur" ns i] assms(2) by auto
  then show "x_coord (layout sim t m w h cur ns ls ! i) = clamp m w (fst (ticked_at sim t w h cur ns ls i))"
    and "y_coord (layout sim t m w h cur ns ls ! i) = clamp m h (snd (ticked_at sim t w h cur ns ls i))"
    using assms by (simp_all add: layout_nth clamp_node_def pin_def place_def)
qed

lemma clamp_wide: "2 * m \<le> e \<Longrightarrow> m \<le> clamp m e v \<and> clamp m e v \<le> e - m"
  by (auto simp: clamp_def)

lemma clamp_narrow: "e < 2 * m \<Longrightarrow> clamp m e v = m"
  by (auto simp: clamp_def)






lemma two_matches:
  assumes "j < i" "i < length xs" "P (xs ! j)" "P (xs ! i)"
  shows "2 \<le> length (filter P xs)"
proof -
  have "xs ! j \<in> set (take i xs)"
    using assms(1,2) by (auto simp: in_set_conv_nth intro!: exI [of _ j])
  then have a: "filter P (take i xs) \<noteq> []"
    using assms(3) by (auto simp: filter_empty_conv)
  have "xs ! i \<in> set (drop i xs)"
    using assms(2) by (auto simp: in_set_conv_nth intro!: exI [of _ 0])
  then have b: "filter P (drop i xs) \<noteq> []"
    using assms(4) by (auto simp: filter_empty_conv)
  have "filter P xs = filter P (take i xs) @ filter P (drop i xs)"
    by (metis append_take_drop_id filter_append)
  moreover have "1 \<le> length (filter P (take i xs))" "1 \<le> length (filter P (drop i xs))"
    using a b by (simp_all add: Suc_le_eq)
  ultimately show ?thesis by simp
qed

lemma find_index_unique:
  assumes "length (filter P xs) \<le> 1" "i < length xs" "P (xs ! i)"
  shows "find_index P xs = Some i"
proof -
  have "xs ! i \<in> set xs" using assms(2) by (rule nth_mem)
  then have ex: "\<exists>x \<in> set xs. P x" using assms(3) by (rule bexI [rotated])
  from find_index_exists [OF ex] obtain j where j: "find_index P xs = Some j" ..
  note fs = find_index_Some [OF j]
  have pj: "P (xs ! j)" by (rule fs [THEN conjunct2, THEN conjunct1])
  have first: "\<And>k. k < j \<Longrightarrow> \<not> P (xs ! k)"
    using fs [THEN conjunct2, THEN conjunct2] by (rule allE) (erule mp)
  have a: "\<not> i < j"
  proof
    assume "i < j"
    from first [OF this] assms(3) show False by (rule notE)
  qed
  have b: "\<not> j < i"
  proof
    assume "j < i"
    from two_matches [OF this assms(2) pj assms(3)] assms(1) show False by linarith
  qed
  from a b have "j = i" by linarith
  with j show ?thesis by (simp only:)
qed

lemma layout_current_centred:
  "current_id_unique cur ns \<Longrightarrow> current_centred w h cur ns (layout sim t m w h cur ns ls)"
  unfolding current_centred_def current_id_unique_def
proof (intro allI impI)
  fix i
  assume u: "length (filter (\<lambda>n. Some (id_node n) = cur) ns) \<le> 1"
    and i: "i < length ns" "Some (id_node (ns ! i)) = cur"
  have "find_index (\<lambda>n. Some (id_node n) = cur) ns = Some i"
    by (rule find_index_unique [OF u i])
  then show "x_coord (layout sim t m w h cur ns ls ! i) = w / 2
           \<and> y_coord (layout sim t m w h cur ns ls ! i) = h / 2"
    by (simp add: layout_current)
qed

lemma layout_others_clamped:
  "others_clamped m w h cur ns (ticked_at sim t w h cur ns ls) (layout sim t m w h cur ns ls)"
  unfolding others_clamped_def
proof (intro allI impI)
  fix i assume i: "i < length ns" "Some (id_node (ns ! i)) \<noteq> cur"
  let ?x = "x_coord (layout sim t m w h cur ns ls ! i)"
  let ?y = "y_coord (layout sim t m w h cur ns ls ! i)"
  have x: "?x = max m (min (w - m) (fst (ticked_at sim t w h cur ns ls i)))"
    and y: "?y = max m (min (h - m) (snd (ticked_at sim t w h cur ns ls i)))"
    by (simp_all add: layout_other [OF i] clamp_def)
  have "2 * m \<le> w \<longrightarrow> m \<le> ?x \<and> ?x \<le> w - m" unfolding x by auto
  moreover have "2 * m \<le> h \<longrightarrow> m \<le> ?y \<and> ?y \<le> h - m" unfolding y by auto
  ultimately show "?x = max m (min (w - m) (fst (ticked_at sim t w h cur ns ls i)))
      \<and> ?y = max m (min (h - m) (snd (ticked_at sim t w h cur ns ls i)))
      \<and> (2 * m \<le> w \<longrightarrow> m \<le> ?x \<and> ?x \<le> w - m)
      \<and> (2 * m \<le> h \<longrightarrow> m \<le> ?y \<and> ?y \<le> h - m)"
    using x y by blast
qed

text \<open>A node that has the current id and is not the first node with it is neither put on
  the centre nor clamped: it stays where the simulation left it.\<close>

lemma layout_namesake:
  assumes "i < length ns" "Some (id_node (ns ! i)) = cur"
    "find_index (\<lambda>n. Some (id_node n) = cur) ns \<noteq> Some i"
  shows "x_coord (layout sim t m w h cur ns ls ! i) = fst (ticked_at sim t w h cur ns ls i)"
    and "y_coord (layout sim t m w h cur ns ls ! i) = snd (ticked_at sim t w h cur ns ls i)"
  using assms by (simp_all add: layout_nth clamp_node_def place_def)

lemma narrow_any_simulation:
  assumes "Suc 0 < length ns" "Some (id_node (ns ! 1)) \<noteq> cur"
  shows "x_coord (layout sim 150 15 10 10 cur ns ls ! 1) = 15"
  using assms by (simp add: layout_other clamp_narrow)

subsection \<open>The concrete graphs and views, evaluated\<close>

lemma offline_graph_eval: "offline_graph = \<lparr>nodes = fallbackNodes, links = manualLinks\<rparr>"
  by (simp add: offline_graph_def loadIndex_def fetch_index_def catchHandler_def initialGraphData_def)

lemma notes_graph_nodes:
  "nodes notes_graph = coreNodes @ [mk_node ''notes-climate-sal-'' ''SAL'' ''/notes/climate/sal.html'' ''notes'']"
  by code_simp

lemma notes_graph_links:
  "links notes_graph = manualLinks @ [mk_edge ''notes-climate-sal-'' ''notes'']"
  by code_simp

lemma current_home:
  "getCurrentPageId fallbackNodes ''/'' = Some ''home''"
  "getCurrentPageId (nodes notes_graph) ''/'' = Some ''home''"
  by (simp_all add: getCurrentPageId_def notes_graph_nodes coreNodes_def fallbackNodes_def mk_node_def)

lemma visibleNodes_all:
  "''all'' \<in> activeCategories v \<Longrightarrow> searchQuery v = [] \<Longrightarrow> \<not> focusMode v \<Longrightarrow>
   visibleNodes gd cur v = nodes gd"
  by (simp add: visibleNodes_def)

lemma all_only_view_eval:
  "all_only_view =
     initialView\<lparr>modalActive := True, activeCategories := {''all''},
                 keyboardFocusableNodes := fallbackNodes\<rparr>"
  by (simp add: all_only_view_def handle_def initGraph_def offline_graph_eval visibleNodes_all
      toggleCategory_def initialView_def fallbackNodes_def)

lemma work_off_view_eval:
  "work_off_view =
     initialView\<lparr>modalActive := True, activeCategories := {''notes'', ''reading'', ''nav''},
                 keyboardFocusableNodes := nodes notes_graph\<rparr>"
proof -
  have 1: "handle notes_graph ''/'' initialView OpenGraph
           = initialView\<lparr>modalActive := True, keyboardFocusableNodes := nodes notes_graph\<rparr>"
    by (simp add: handle_def initGraph_def visibleNodes_all initialView_def notes_graph_nodes)
  have 2: "toggleCategory ''work'' {''all'', ''notes'', ''work'', ''reading'', ''nav''}
           = {''notes'', ''reading'', ''nav''}"
    by (auto simp: toggleCategory_def)
  have 3: "filter (\<lambda>n. cat n \<in> {''notes'', ''reading'', ''nav''}) (nodes notes_graph) = nodes notes_graph"
    by (simp add: notes_graph_nodes coreNodes_def mk_node_def)
  show ?thesis
    unfolding work_off_view_def
    by (simp add: 1)
      (simp add: handle_def initGraph_def initialView_def 2 visibleNodes_def Let_def 3
        notes_graph_nodes coreNodes_def mk_node_def)
qed

lemma work_off_visible:
  "visibleNodes notes_graph (Some ''home'') work_off_view = nodes notes_graph"
  by (simp add: work_off_view_eval visibleNodes_def initialView_def notes_graph_nodes
      coreNodes_def mk_node_def)

lemma work_off_links:
  "visibleLinks notes_graph (nodes notes_graph)
   = [mk_edge ''home'' ''notes'', mk_edge ''home'' ''work'', mk_edge ''home'' ''reading'',
      mk_edge ''home'' ''about'', mk_edge ''notes-climate-sal-'' ''notes'']"
  by (simp add: visibleLinks_def notes_graph_links notes_graph_nodes manualLinks_def coreNodes_def
      mk_node_def mk_edge_def has_node_def)

subsection \<open>C3: the current page at the centre, the other nodes clamped\<close>

lemma clash_graph_nodes:
  "nodes clash_graph = coreNodes @
     [mk_node ''notes-climate-sal-'' ''SAL'' ''/notes/climate/sal.html'' ''notes'',
      mk_node ''notes-climate-sal-'' ''Climate SAL'' ''/notes/climate-sal.html'' ''notes'']"
  by code_simp

lemma clash_current:
  "getCurrentPageId (nodes clash_graph) ''/notes/climate-sal.html'' = Some ''notes-climate-sal-''"
  "find_index (\<lambda>n. Some (id_node n) = Some ''notes-climate-sal-'') (nodes clash_graph) = Some 6"
  by (simp_all add: clash_graph_nodes coreNodes_def mk_node_def getCurrentPageId_def)

lemma offline_current_unique:
  "current_id_unique (Some ''home'') (nodes offline_graph)"
  by (simp add: current_id_unique_def offline_graph_eval fallbackNodes_def mk_node_def)

text \<open>
  C3, as the code has it. Whatever the simulation does in its 150 ticks (mini view) or
  200 ticks (full view), a graph with nodes is drawn, with one placed copy for each node
  laid out. Every node whose id is not the current id has each coordinate set to
  max(margin, min(extent - margin, c)) of the coordinate c the simulation left it at,
  margin 15 in the mini view and 50 in the full view; that lies within
  [margin, extent - margin] when the viewport is at least two margins wide. When no other
  node laid out shares the id of the current page, the node of the current page sits
  exactly on the centre (width/2, height/2).
\<close>

theorem C3_layout_centre_and_clamp:
  "nodes gd \<noteq> [] \<Longrightarrow>
   (\<exists>L ls. renderMiniGraph sim (Some (cw, ch)) True gd p = MiniDrawn L ls
      \<and> map id_node L = map id_node (nodes gd)
      \<and> others_clamped 15 (if cw = 0 then 180 else real cw) (if ch = 0 then 150 else real ch)
           (getCurrentPageId (nodes gd) p) (nodes gd)
           (ticked_at sim 150 (if cw = 0 then 180 else real cw) (if ch = 0 then 150 else real ch)
              (getCurrentPageId (nodes gd) p) (nodes gd) ls) L
      \<and> (current_id_unique (getCurrentPageId (nodes gd) p) (nodes gd) \<longrightarrow>
            current_centred (if cw = 0 then 180 else real cw) (if ch = 0 then 150 else real ch)
              (getCurrentPageId (nodes gd) p) (nodes gd) L))
   \<and> (\<exists>d. initGraph_draw sim (cw, ch) gd p v = Some d
      \<and> map id_node (drawn_nodes d)
          = map id_node (visibleNodes gd (getCurrentPageId (nodes gd) p) v)
      \<and> others_clamped 50 (real cw) (real ch) (getCurrentPageId (nodes gd) p)
           (visibleNodes gd (getCurrentPageId (nodes gd) p) v)
           (ticked_at sim 200 (real cw) (real ch) (getCurrentPageId (nodes gd) p)
              (visibleNodes gd (getCurrentPageId (nodes gd) p) v) (drawn_links d))
           (drawn_nodes d)
      \<and> (current_id_unique (getCurrentPageId (nodes gd) p)
             (visibleNodes gd (getCurrentPageId (nodes gd) p) v) \<longrightarrow>
            current_centred (real cw) (real ch) (getCurrentPageId (nodes gd) p)
              (visibleNodes gd (getCurrentPageId (nodes gd) p) v) (drawn_nodes d)))"
  by (simp add: renderMiniGraph_def initGraph_draw_def Let_def layout_ids layout_others_clamped
      layout_current_centred)

text \<open>The theorem at the offline graph on the homepage, in a mini container of 180 by
  150 and a modal of 800 by 600: Home sits on the centre, and About, which the resting
  simulation left at the origin, is moved onto the margins.\<close>

theorem C3_witness:
  "nodes offline_graph \<noteq> []
   \<and> getCurrentPageId (nodes offline_graph) ''/'' = Some ''home''
   \<and> current_id_unique (Some ''home'') (nodes offline_graph)
   \<and> map id_node wide_mini = [''home'', ''about'', ''notes'', ''work'', ''reading'', ''contact'']
   \<and> x_coord (wide_mini ! 0) = 90 \<and> y_coord (wide_mini ! 0) = 75
   \<and> x_coord (wide_mini ! 1) = 15 \<and> y_coord (wide_mini ! 1) = 15
   \<and> x_coord (wide_full ! 0) = 400 \<and> y_coord (wide_full ! 0) = 300
   \<and> x_coord (wide_full ! 1) = 50 \<and> y_coord (wide_full ! 1) = 50"
proof -
  have ne: "nodes offline_graph \<noteq> []" by (simp add: offline_graph_eval fallbackNodes_def)
  have cur: "getCurrentPageId (nodes offline_graph) ''/'' = Some ''home''"
    by (simp add: offline_graph_eval current_home)
  have ids: "map id_node (nodes offline_graph)
             = [''home'', ''about'', ''notes'', ''work'', ''reading'', ''contact'']"
    by (simp add: offline_graph_eval fallbackNodes_def mk_node_def)
  have vis: "visibleNodes offline_graph (Some ''home'') initialView = nodes offline_graph"
    by (simp add: visibleNodes_all initialView_def)
  have at: "nodes offline_graph ! 0 = mk_node ''home'' ''Home'' ''/'' ''nav''"
    "nodes offline_graph ! Suc 0 = mk_node ''about'' ''About'' ''/about.html'' ''nav''"
    "length (nodes offline_graph) = 6"
    by (simp_all add: offline_graph_eval fallbackNodes_def)
  have rest: "ticked_at resting t w h c ns ls i = (0, 0)" for t w h c ns ls i
    by (simp add: ticked_at_def resting_def)
  from C3_layout_centre_and_clamp
    [where gd = offline_graph and sim = resting and cw = 180 and ch = 150 and p = "''/''"
       and v = initialView, OF ne]
  obtain L ls where
    m: "renderMiniGraph resting (Some (180, 150)) True offline_graph ''/'' = MiniDrawn L ls"
       "map id_node L = map id_node (nodes offline_graph)"
       "others_clamped 15 180 150 (Some ''home'') (nodes offline_graph)
          (ticked_at resting 150 180 150 (Some ''home'') (nodes offline_graph) ls) L"
       "current_centred 180 150 (Some ''home'') (nodes offline_graph) L"
    using offline_current_unique by (auto simp: cur)
  from C3_layout_centre_and_clamp
    [where gd = offline_graph and sim = resting and cw = 800 and ch = 600 and p = "''/''"
       and v = initialView, OF ne]
  obtain d where
    f: "initGraph_draw resting (800, 600) offline_graph ''/'' initialView = Some d"
       "others_clamped 50 800 600 (Some ''home'') (nodes offline_graph)
          (ticked_at resting 200 800 600 (Some ''home'') (nodes offline_graph) (drawn_links d))
          (drawn_nodes d)"
       "current_centred 800 600 (Some ''home'') (nodes offline_graph) (drawn_nodes d)"
    using offline_current_unique by (auto simp: cur vis)
  have wm: "wide_mini = L" by (simp add: wide_mini_def m(1))
  have wf: "wide_full = drawn_nodes d" by (simp add: wide_full_def f(1))
  have "x_coord (L ! 0) = 90 \<and> y_coord (L ! 0) = 75"
    using m(4) [unfolded current_centred_def, rule_format, of 0]
    by (simp add: at mk_node_def)
  moreover have "x_coord (L ! 1) = 15 \<and> y_coord (L ! 1) = 15"
    using m(3) [unfolded others_clamped_def, rule_format, of 1]
    by (simp add: at mk_node_def rest)
  moreover have "x_coord (drawn_nodes d ! 0) = 400 \<and> y_coord (drawn_nodes d ! 0) = 300"
    using f(3) [unfolded current_centred_def, rule_format, of 0]
    by (simp add: at mk_node_def)
  moreover have "x_coord (drawn_nodes d ! 1) = 50 \<and> y_coord (drawn_nodes d ! 1) = 50"
    using f(2) [unfolded others_clamped_def, rule_format, of 1]
    by (simp add: at mk_node_def rest)
  ultimately show ?thesis using ne cur offline_current_unique m(2) ids wm wf by simp
qed

text \<open>
  C3 as the claim states it fails in two ways. In a narrow viewport the clamp leaves the
  viewport: in a mini container 10 wide and 10 high, on the homepage of the offline
  graph, the About node ends at x = 15 and y = 15, beyond width - margin = -5 and beyond
  the width itself (by \<open>narrow_any_simulation\<close> wherever the simulation leaves it). And
  when two nodes share an id, the page shown need not be the node that is centred: in
  the graph of \<open>clash_index\<close>, on the page \<open>/notes/climate-sal.html\<close> in a container of 180
  by 150, the node of the other note (index 6) is put on the centre (90, 75), and the
  node of the page shown (index 7) stays where the simulation left it (by
  \<open>layout_namesake\<close>; the origin for the resting simulation), neither centred nor clamped.
\<close>

theorem C3_narrow_viewport_and_id_clash:
  "getCurrentPageId (nodes offline_graph) ''/'' = Some ''home''
   \<and> map id_node narrow_mini = [''home'', ''about'', ''notes'', ''work'', ''reading'', ''contact'']
   \<and> x_coord (narrow_mini ! 1) = 15 \<and> y_coord (narrow_mini ! 1) = 15
   \<and> \<not> (x_coord (narrow_mini ! 1) \<le> 10 - 15) \<and> \<not> (x_coord (narrow_mini ! 1) \<le> 10)
   \<and> getCurrentPageId (nodes clash_graph) ''/notes/climate-sal.html'' = Some ''notes-climate-sal-''
   \<and> path (clash_mini ! 6) = ''/notes/climate/sal.html''
   \<and> x_coord (clash_mini ! 6) = 90 \<and> y_coord (clash_mini ! 6) = 75
   \<and> path (clash_mini ! 7) = ''/notes/climate-sal.html''
   \<and> x_coord (clash_mini ! 7) = 0 \<and> y_coord (clash_mini ! 7) = 0"
proof -
  have narrow: "getCurrentPageId (nodes offline_graph) ''/'' = Some ''home''
   \<and> map id_node narrow_mini = [''home'', ''about'', ''notes'', ''work'', ''reading'', ''contact'']
   \<and> x_coord (narrow_mini ! 1) = 15 \<and> y_coord (narrow_mini ! 1) = 15
   \<and> \<not> (x_coord (narrow_mini ! 1) \<le> 10 - 15) \<and> \<not> (x_coord (narrow_mini ! 1) \<le> 10)"
    by code_simp
  let ?ls = "filter (\<lambda>l. has_node (nodes clash_graph) (source l) \<and> has_node (nodes clash_graph) (target l))
               (links clash_graph)"
  let ?L = "layout resting 150 15 180 150 (Some ''notes-climate-sal-'') (nodes clash_graph) ?ls"
  have ne: "nodes clash_graph \<noteq> []" "length (nodes clash_graph) = 8"
    by (simp_all add: clash_graph_nodes coreNodes_def)
  have L: "clash_mini = ?L"
    by (simp add: clash_mini_def renderMiniGraph_def Let_def ne clash_current)
  have at: "nodes clash_graph ! 6 = mk_node ''notes-climate-sal-'' ''SAL'' ''/notes/climate/sal.html'' ''notes''"
    "nodes clash_graph ! 7
       = mk_node ''notes-climate-sal-'' ''Climate SAL'' ''/notes/climate-sal.html'' ''notes''"
    by (simp_all add: clash_graph_nodes coreNodes_def)
  have rest: "ticked_at resting t w h c ns ls i = (0, 0)" for t w h c ns ls i
    by (simp add: ticked_at_def resting_def)
  have six: "path (?L ! 6) = ''/notes/climate/sal.html''" "x_coord (?L ! 6) = 90" "y_coord (?L ! 6) = 75"
    using layout_current [OF clash_current(2), of resting 150 15 180 150 ?ls]
      layout_node_fields(3) [of 6 "nodes clash_graph" resting 150 15 180 150
        "Some ''notes-climate-sal-''" ?ls]
    by (simp_all add: ne at mk_node_def)
  have i7: "7 < length (nodes clash_graph)" by (simp add: ne)
  have id7: "Some (id_node (nodes clash_graph ! 7)) = Some ''notes-climate-sal-''"
    by (simp add: at mk_node_def)
  have nf: "find_index (\<lambda>n. Some (id_node n) = Some ''notes-climate-sal-'') (nodes clash_graph)
            \<noteq> Some 7"
    by (simp only: clash_current(2)) simp
  have seven: "path (?L ! 7) = ''/notes/climate-sal.html''" "x_coord (?L ! 7) = 0" "y_coord (?L ! 7) = 0"
    using layout_namesake [OF i7 id7 nf, of resting 150 15 180 150 ?ls]
      layout_node_fields(3) [OF i7, of resting 150 15 180 150 "Some ''notes-climate-sal-''" ?ls]
    by (simp_all add: at mk_node_def rest)
  from narrow six seven show ?thesis by (simp add: L clash_current)
qed

subsection \<open>C6: both fetches fail\<close>

lemma loadIndex_failed:
  "fetch_failed primary \<Longrightarrow> fetch_failed fallback \<Longrightarrow>
   loadIndex gd primary fallback = catchHandler gd"
  by (auto simp: loadIndex_def fetch_index_def fetch_failed_def split: sum.splits)

lemma has_node_iff: "has_node ns i \<longleftrightarrow> i \<in> id_node ` set ns"
  by (auto simp: has_node_def list_ex_iff)

text \<open>
  C6. If the primary fetch fails and the fallback fetch fails, the catch handler leaves
  exactly the six core navigation nodes (home, about, notes, work, reading, contact) in
  the graph and the links as they were; no error leaves the loader, and the mini graph,
  given its container and D3, is drawn with these six nodes.
\<close>

theorem C6_index_unavailable:
  "fetch_failed primary \<Longrightarrow> fetch_failed fallback \<Longrightarrow>
   nodes (loadIndex gd primary fallback) =
     [mk_node ''home'' ''Home'' ''/'' ''nav'',
      mk_node ''about'' ''About'' ''/about.html'' ''nav'',
      mk_node ''notes'' ''Notes'' ''/notes/'' ''nav'',
      mk_node ''work'' ''Work'' ''/work/'' ''nav'',
      mk_node ''reading'' ''Reading'' ''/reading/'' ''nav'',
      mk_node ''contact'' ''Contact'' ''/contact_cv.html'' ''nav'']
   \<and> length (nodes (loadIndex gd primary fallback)) = 6
   \<and> links (loadIndex gd primary fallback) = links gd
   \<and> (\<exists>L ls. renderMiniGraph sim (Some (cw, ch)) True (loadIndex gd primary fallback) p = MiniDrawn L ls
        \<and> map id_node L = [''home'', ''about'', ''notes'', ''work'', ''reading'', ''contact''])"
  by (simp add: loadIndex_failed catchHandler_def fallbackNodes_def renderMiniGraph_def Let_def
      layout_ids mk_node_def)

text \<open>The theorem for a primary fetch answered 404 and a fallback fetch that rejects.\<close>

theorem C6_witness:
  "fetch_failed (Inr \<lparr>ok = False, json = None\<rparr>) \<and> fetch_failed (Inl NetworkFailure)
   \<and> map path (nodes (loadIndex initialGraphData (Inr \<lparr>ok = False, json = None\<rparr>) (Inl NetworkFailure)))
       = [''/'', ''/about.html'', ''/notes/'', ''/work/'', ''/reading/'', ''/contact_cv.html'']
   \<and> length (nodes (loadIndex initialGraphData (Inr \<lparr>ok = False, json = None\<rparr>) (Inl NetworkFailure))) = 6"
proof -
  have a: "fetch_failed (Inr \<lparr>ok = False, json = None\<rparr>)" by (simp add: fetch_failed_def)
  have b: "fetch_failed (Inl NetworkFailure)" by (simp add: fetch_failed_def)
  from C6_index_unavailable [OF a b, of initialGraphData resting 180 150 "''/''"] a b
  show ?thesis by (simp add: mk_node_def)
qed

subsection \<open>C1: what the full view draws under the category filter\<close>

lemma visibleNodes_subset: "set (visibleNodes gd cur v) \<subseteq> set (nodes gd)"
  by (auto simp: visibleNodes_def Let_def)

lemma visibleNodes_category:
  "n \<in> set (visibleNodes gd cur v) \<Longrightarrow> ''all'' \<in> activeCategories v \<or> cat n \<in> activeCategories v"
  by (auto simp: visibleNodes_def Let_def split: if_splits)

lemma visibleLinks_ends:
  "l \<in> set (visibleLinks gd ns) \<Longrightarrow> source l \<in> id_node ` set ns \<and> target l \<in> id_node ` set ns"
  by (simp add: visibleLinks_def has_node_iff)

text \<open>
  C1, as the code has it. After any sequence of events of the viewer (filter clicks among
  them) from the initial view, every node the full view draws has its category in the set
  of active categories, or \<open>all\<close> is in that set (the category filter is then skipped and
  every node passes); and every link drawn has both ends among the drawn nodes.
\<close>

theorem C1_filtered_render:
  "nodes gd \<noteq> [] \<Longrightarrow>
   \<exists>d. initGraph_draw sim container gd p (foldl (handle gd p) initialView es) = Some d
     \<and> (\<forall>n \<in> set (drawn_nodes d).
           ''all'' \<in> activeCategories (foldl (handle gd p) initialView es)
           \<or> cat n \<in> activeCategories (foldl (handle gd p) initialView es))
     \<and> (\<forall>l \<in> set (drawn_links d).
           source l \<in> id_node ` set (drawn_nodes d) \<and> target l \<in> id_node ` set (drawn_nodes d))"
proof -
  let ?v = "foldl (handle gd p) initialView es"
  let ?cur = "getCurrentPageId (nodes gd) p"
  let ?ns = "visibleNodes gd ?cur ?v"
  let ?L = "layout sim 200 50 (real (fst container)) (real (snd container)) ?cur ?ns
              (visibleLinks gd ?ns)"
  define d where "d = \<lparr>drawn_nodes = ?L, drawn_links = visibleLinks gd ?ns\<rparr>"
  assume "nodes gd \<noteq> []"
  then have drawn: "initGraph_draw sim container gd p ?v = Some d"
    by (simp add: initGraph_draw_def Let_def d_def)
  have d: "drawn_nodes d = ?L" "drawn_links d = visibleLinks gd ?ns"
    by (simp_all add: d_def)
  have ids: "id_node ` set (drawn_nodes d) = id_node ` set ?ns"
    using layout_ids [of sim 200 50 "real (fst container)" "real (snd container)" ?cur ?ns
        "visibleLinks gd ?ns"]
    unfolding d(1) by (metis set_map)
  have cats: "cat ` set (drawn_nodes d) = cat ` set ?ns"
    using layout_cats [of sim 200 50 "real (fst container)" "real (snd container)" ?cur ?ns
        "visibleLinks gd ?ns"]
    unfolding d(1) by (metis set_map)
  have "''all'' \<in> activeCategories ?v \<or> cat n \<in> activeCategories ?v"
    if "n \<in> set (drawn_nodes d)" for n
  proof -
    from that have "cat n \<in> cat ` set ?ns" using cats by blast
    then obtain n' where "n' \<in> set ?ns" "cat n' = cat n" by auto
    then show ?thesis using visibleNodes_category [of n' gd ?cur ?v] by simp
  qed
  moreover have "source l \<in> id_node ` set (drawn_nodes d) \<and> target l \<in> id_node ` set (drawn_nodes d)"
    if "l \<in> set (drawn_links d)" for l
    using that visibleLinks_ends [of l gd ?ns] by (simp add: d(2) ids)
  ultimately show ?thesis using drawn by blast
qed

text \<open>The theorem for the graph with one note after the Work filter was switched off:
  seven nodes and five links are drawn.\<close>

theorem C1_witness:
  "initGraph_draw resting (800, 600) notes_graph ''/'' work_off_view = Some work_off_drawing
   \<and> activeCategories work_off_view = {''notes'', ''reading'', ''nav''}
   \<and> set (map cat (drawn_nodes work_off_drawing)) \<subseteq> activeCategories work_off_view
   \<and> length (drawn_nodes work_off_drawing) = 7
   \<and> length (drawn_links work_off_drawing) = 5
   \<and> set (map source (drawn_links work_off_drawing)) \<subseteq> set (map id_node (drawn_nodes work_off_drawing))
   \<and> set (map target (drawn_links work_off_drawing)) \<subseteq> set (map id_node (drawn_nodes work_off_drawing))"
proof -
  let ?es = "[OpenGraph, FilterClick ''work'']"
  have ne: "nodes notes_graph \<noteq> []" by (simp add: notes_graph_nodes)
  have d: "initGraph_draw resting (800, 600) notes_graph ''/'' work_off_view = Some work_off_drawing"
    by (simp add: work_off_drawing_def initGraph_draw_def Let_def ne)
  have a: "activeCategories work_off_view = {''notes'', ''reading'', ''nav''}"
    by (simp add: work_off_view_eval)
  have n: "length (drawn_nodes work_off_drawing) = 7" "length (drawn_links work_off_drawing) = 5"
    by (simp_all add: work_off_drawing_def initGraph_draw_def Let_def ne layout_length current_home
        work_off_visible work_off_links) (simp add: notes_graph_nodes coreNodes_def)
  have v: "work_off_view = foldl (handle notes_graph ''/'') initialView ?es"
    by (simp only: work_off_view_def)
  from C1_filtered_render [OF ne, of resting "(800, 600)" "''/''" ?es] d
  have *: "\<forall>n \<in> set (drawn_nodes work_off_drawing).
             ''all'' \<in> activeCategories work_off_view \<or> cat n \<in> activeCategories work_off_view"
    and **: "\<forall>l \<in> set (drawn_links work_off_drawing).
             source l \<in> id_node ` set (drawn_nodes work_off_drawing)
             \<and> target l \<in> id_node ` set (drawn_nodes work_off_drawing)"
    unfolding v by auto
  have "''all'' \<notin> activeCategories work_off_view" by (simp add: a)
  with * have "set (map cat (drawn_nodes work_off_drawing)) \<subseteq> activeCategories work_off_view"
    by auto
  moreover from ** have
    "set (map source (drawn_links work_off_drawing)) \<subseteq> set (map id_node (drawn_nodes work_off_drawing))"
    "set (map target (drawn_links work_off_drawing)) \<subseteq> set (map id_node (drawn_nodes work_off_drawing))"
    by auto
  ultimately show ?thesis using d a n by simp
qed

text \<open>
  C1 as the claim states it fails once \<open>All\<close> is clicked: the set of active categories is
  then \<open>all\<close> alone, and on the offline graph the full view still draws the six nodes of
  category \<open>nav\<close>, a category that is not in the set.
\<close>

theorem C1_all_bypasses_filter:
  "activeCategories all_only_view = {''all''}
   \<and> map_option (map cat \<circ> drawn_nodes) (initGraph_draw resting (800, 600) offline_graph ''/'' all_only_view)
       = Some [''nav'', ''nav'', ''nav'', ''nav'', ''nav'', ''nav'']
   \<and> ''nav'' \<notin> activeCategories all_only_view"
proof -
  have "visibleNodes offline_graph (Some ''home'') all_only_view = fallbackNodes"
    by (simp add: all_only_view_eval visibleNodes_all initialView_def offline_graph_eval)
  moreover have "map cat fallbackNodes = [''nav'', ''nav'', ''nav'', ''nav'', ''nav'', ''nav'']"
    by (simp add: fallbackNodes_def mk_node_def)
  moreover have "fallbackNodes \<noteq> []" by (simp add: fallbackNodes_def)
  ultimately show ?thesis
    by (simp add: initGraph_draw_def Let_def layout_cats offline_graph_eval current_home
        all_only_view_eval)
qed

subsection \<open>C2: merging the structural links\<close>

lemma has_link_iff: "has_link ls (source e) (target e) \<longleftrightarrow> (e::edge) \<in> set ls"
proof -
  have eq: "l = e" if "source l = source e" "target l = target e" for l :: edge
    using that by (simp add: edge.equality)
  show ?thesis
    unfolding has_link_def list_ex_iff
  proof
    assume "\<exists>l \<in> set ls. source l = source e \<and> target l = target e"
    then obtain l where l: "l \<in> set ls" "source l = source e" "target l = target e" by blast
    from eq [OF l(2) l(3)] l(1) show "e \<in> set ls" by simp
  next
    assume "e \<in> set ls"
    then show "\<exists>l \<in> set ls. source l = source e \<and> target l = target e" by blast
  qed
qed

lemma push_unique_set: "set (push_unique ls e) = insert e (set ls)"
  by (auto simp: push_unique_def has_link_iff)

lemma push_unique_absorb: "(e::edge) \<in> set ls \<Longrightarrow> push_unique ls e = ls"
  by (simp add: push_unique_def has_link_iff)

lemma mergeLinks_set: "set (mergeLinks manual auto) = set manual \<union> set auto"
  unfolding mergeLinks_def
  by (induction auto arbitrary: manual) (auto simp: push_unique_set)

lemma mergeLinks_absorb: "set auto \<subseteq> set manual \<Longrightarrow> mergeLinks manual auto = manual"
  unfolding mergeLinks_def
  by (induction auto arbitrary: manual) (simp_all add: push_unique_absorb)

lemma mergeLinks_keeps_manual: "take (length manual) (mergeLinks manual auto) = manual"
  unfolding mergeLinks_def
proof (induction auto arbitrary: manual)
  case Nil
  then show ?case by simp
next
  case (Cons e auto)
  have "take (length manual) (foldl push_unique (push_unique manual e) auto)
        = take (length manual) (take (length (push_unique manual e)) (foldl push_unique (push_unique manual e) auto))"
    by (simp add: push_unique_def min_def)
  also have "\<dots> = take (length manual) (push_unique manual e)"
    by (simp only: Cons.IH)
  also have "\<dots> = manual" by (simp add: push_unique_def)
  finally show ?case by simp
qed

text \<open>
  C2. For any node list and any manual links, merging the structural links (the four
  rules) into the result of a first merge changes nothing: the second run yields the
  very list of the first. The merged links are, as a set, the manual links together with
  the structural links; every manual link is among them, and the manual links are the
  front of the merged list in their order. The same holds for the handler of the index
  as a whole.
\<close>

theorem C2_merge_idempotent:
  "mergeLinks (mergeLinks manual (autoLinks ns)) (autoLinks ns) = mergeLinks manual (autoLinks ns)
   \<and> set (mergeLinks manual (autoLinks ns)) = set manual \<union> set (autoLinks ns)
   \<and> set manual \<subseteq> set (mergeLinks manual (autoLinks ns))
   \<and> take (length manual) (mergeLinks manual (autoLinks ns)) = manual
   \<and> thenHandler (thenHandler gd sd) sd = thenHandler gd sd
   \<and> set (links gd) \<subseteq> set (links (thenHandler gd sd))"
proof -
  have idem: "mergeLinks (mergeLinks m a) a = mergeLinks m a" for m a
    by (rule mergeLinks_absorb) (simp add: mergeLinks_set)
  show ?thesis
    by (simp add: idem mergeLinks_set mergeLinks_keeps_manual thenHandler_def)
qed

subsection \<open>C4: links between notes of one directory\<close>
















subsection \<open>C7: the log of recent pages\<close>

lemma is_entry_recent: "is_entry (recent_entry p t)"
  by (simp add: is_entry_def recent_entry_def)

lemma entry_path_recent: "entry_path (recent_entry p t) = Some (JStr p)"
  by (simp add: entry_path_def get_path_def recent_entry_def)

lemma is_entry_get_path: "is_entry e \<Longrightarrow> get_path e = Inr (entry_path e)"
  by (auto simp: is_entry_def entry_path_def get_path_def split: json.splits list.splits prod.splits)

lemma filter_other_entries:
  "list_all is_entry es \<Longrightarrow>
   filter_other_paths p es = Inr (filter (\<lambda>e. entry_path e \<noteq> Some (JStr p)) es)"
  by (induction es) (simp_all add: is_entry_get_path)

lemma is_log_add:
  assumes "is_log es"
  shows "is_log (take 10 (recent_entry p t # filter (\<lambda>e. entry_path e \<noteq> Some (JStr p)) es))"
proof -
  let ?f = "filter (\<lambda>e. entry_path e \<noteq> Some (JStr p)) es"
  have d: "distinct (map entry_path (recent_entry p t # ?f))"
    using assms by (auto simp: is_log_def entry_path_recent distinct_map_filter)
  have e: "list_all is_entry (recent_entry p t # ?f)"
    using assms by (auto simp: is_log_def is_entry_recent list_all_iff)
  have "distinct (map entry_path (take 10 (recent_entry p t # ?f)))"
    using d by (metis distinct_take take_map)
  moreover have "list_all is_entry (take 10 (recent_entry p t # ?f))"
    using e by (auto simp: list_all_iff dest: in_set_takeD)
  ultimately show ?thesis by (simp add: is_log_def)
qed

lemma addRecentPage_flags:
  "accessible (addRecentPage p t st) = accessible st \<and> writable (addRecentPage p t st) = writable st"
  by (auto simp: addRecentPage_def addRecentPage_try_def setItem_def split: sum.splits json.splits)

lemma getRecentPages_log_state:
  "log_state st \<Longrightarrow> getRecentPages st = JArr (log_entries st) \<and> is_log (log_entries st)"
  by (auto simp: log_state_def log_entries_def getRecentPages_def getRecentPages_try_def getItem_def
      is_log_def split: option.splits stored.splits json.splits)

lemma addRecentPage_working:
  assumes "log_state st" "accessible st" "writable st"
  shows "stored_item (addRecentPage p t st)
         = Some (Parsable (JArr (take 10 (recent_entry p t #
              filter (\<lambda>e. entry_path e \<noteq> Some (JStr p)) (log_entries st)))))"
proof -
  from getRecentPages_log_state [OF assms(1)]
  have g: "getRecentPages st = JArr (log_entries st)" and l: "list_all is_entry (log_entries st)"
    by (simp_all add: is_log_def)
  show ?thesis
    by (simp add: addRecentPage_def addRecentPage_try_def g filter_other_entries [OF l]
        setItem_def assms)
qed

lemma addRecentPage_refused:
  "\<not> (accessible st \<and> writable st) \<Longrightarrow> addRecentPage p t st = st"
  by (auto simp: addRecentPage_def addRecentPage_try_def setItem_def split: sum.splits json.splits)

lemma log_state_add: "log_state st \<Longrightarrow> log_state (addRecentPage p t st)"
proof (cases "accessible st \<and> writable st")
  case True
  assume ls: "log_state st"
  from getRecentPages_log_state [OF ls] have "is_log (log_entries st)" by simp
  from is_log_add [OF this, of p t] addRecentPage_working [OF ls, of p t] True
  show ?thesis by (simp add: log_state_def)
next
  case False
  assume "log_state st"
  with addRecentPage_refused [OF False] show ?thesis by simp
qed

lemma log_state_visits: "log_state st \<Longrightarrow> log_state (foldl visit st pts)"
  by (induction pts arbitrary: st) (simp_all add: visit_def log_state_add)

lemma visits_flags:
  "accessible (foldl visit st pts) = accessible st \<and> writable (foldl visit st pts) = writable st"
  by (induction pts arbitrary: st) (simp_all add: visit_def addRecentPage_flags)

lemma log_entries_after_add:
  assumes "log_state st" "accessible st" "writable st"
  shows "log_entries (addRecentPage p t st)
         = take 10 (recent_entry p t # filter (\<lambda>e. entry_path e \<noteq> Some (JStr p)) (log_entries st))"
  using addRecentPage_working [OF assms, of p t] addRecentPage_flags [of p t st] assms(2)
  by (simp add: log_entries_def getRecentPages_def getRecentPages_try_def getItem_def)

lemma visits_refused:
  "\<not> (accessible st \<and> writable st) \<Longrightarrow> foldl visit st pts = st"
  by (induction pts) (simp_all add: visit_def addRecentPage_refused)

lemma paths_of_entries: "list_all is_entry es \<Longrightarrow> paths_of es = Inr (map entry_path es)"
  by (induction es) (simp_all add: is_entry_get_path)

lemma recentPages_log_state:
  "log_state st \<Longrightarrow> recentPages st = Inr (map entry_path (log_entries st))"
  using getRecentPages_log_state [of st]
  by (simp add: recentPages_def is_log_def paths_of_entries)

lemma three_visits_log:
  "log_entries (foldl visit fresh_storage three_visits)
   = [recent_entry ''/work/'' 3, recent_entry ''/notes/'' 1]"
  by code_simp

text \<open>
  C7, as the code has it. From a storage that holds a log (the key absent, or a log written
  by earlier calls), after any sequence of \<open>addRecentPage\<close> calls the log has at most 10
  entries, each with a path and a time stamp, and no two entries with the same path, and
  the script reads its paths without an error. When the storage can be read and written
  and a call was made, the path added last is at the front, and exactly one entry has it
  (so adding a path twice in a row leaves one entry for it). When the storage cannot be
  read or cannot be written, the calls change nothing.
\<close>

theorem C7_recent_pages_log:
  "log_state st0 \<Longrightarrow>
   length (log_entries (foldl visit st0 pts)) \<le> 10
   \<and> distinct (map entry_path (log_entries (foldl visit st0 pts)))
   \<and> list_all is_entry (log_entries (foldl visit st0 pts))
   \<and> recentPages (foldl visit st0 pts) = Inr (map entry_path (log_entries (foldl visit st0 pts)))
   \<and> (accessible st0 \<and> writable st0 \<and> pts \<noteq> [] \<longrightarrow>
        entry_path (hd (log_entries (foldl visit st0 pts))) = Some (JStr (fst (last pts)))
        \<and> length (filter (\<lambda>e. entry_path e = Some (JStr (fst (last pts))))
                   (log_entries (foldl visit st0 pts))) = 1)
   \<and> (\<not> (accessible st0 \<and> writable st0) \<longrightarrow> foldl visit st0 pts = st0)"
proof -
  assume ls0: "log_state st0"
  let ?st = "foldl visit st0 pts"
  have ls: "log_state ?st" by (rule log_state_visits [OF ls0])
  from getRecentPages_log_state [OF ls] have il: "is_log (log_entries ?st)" by simp
  have front: "entry_path (hd (log_entries ?st)) = Some (JStr (fst (last pts)))
        \<and> length (filter (\<lambda>e. entry_path e = Some (JStr (fst (last pts)))) (log_entries ?st)) = 1"
    if w: "accessible st0" "writable st0" and ne: "pts \<noteq> []"
  proof -
    from ne obtain qs q where pts: "pts = qs @ [q]" by (metis rev_exhaust)
    let ?prev = "foldl visit st0 qs"
    have lp: "log_state ?prev" by (rule log_state_visits [OF ls0])
    have fl: "accessible ?prev" "writable ?prev" using visits_flags [of st0 qs] w by simp_all
    let ?f = "filter (\<lambda>e. entry_path e \<noteq> Some (JStr (fst q))) (log_entries ?prev)"
    have le: "log_entries (visit ?prev q) = take 10 (recent_entry (fst q) (snd q) # ?f)"
      using log_entries_after_add [OF lp fl, of "fst q" "snd q"] by (simp add: visit_def)
    then have le': "log_entries (visit ?prev q) = recent_entry (fst q) (snd q) # take 9 ?f"
      by (simp add: take_Cons')
    have "filter (\<lambda>e. entry_path e = Some (JStr (fst q))) (take 9 ?f) = []"
      by (auto simp: filter_empty_conv dest: in_set_takeD)
    then show ?thesis by (simp add: le' pts entry_path_recent)
  qed
  have kept: "?st = st0" if "\<not> (accessible st0 \<and> writable st0)"
    using that by (rule visits_refused)
  from il front kept recentPages_log_state [OF ls] show ?thesis
    by (simp add: is_log_def)
qed

text \<open>The theorem for three page loads, /notes/, /work/, /work/: on a working storage,
  and on a storage that refuses access.\<close>

theorem C7_witness:
  "log_state fresh_storage \<and> accessible fresh_storage \<and> writable fresh_storage
   \<and> three_visits \<noteq> []
   \<and> log_entries (foldl visit fresh_storage three_visits)
       = [recent_entry ''/work/'' 3, recent_entry ''/notes/'' 1]
   \<and> recentPages (foldl visit fresh_storage three_visits)
       = Inr [Some (JStr ''/work/''), Some (JStr ''/notes/'')]
   \<and> length (log_entries (foldl visit fresh_storage three_visits)) \<le> 10
   \<and> distinct (map entry_path (log_entries (foldl visit fresh_storage three_visits)))
   \<and> entry_path (hd (log_entries (foldl visit fresh_storage three_visits))) = Some (JStr ''/work/'')
   \<and> log_state blocked_storage \<and> \<not> (accessible blocked_storage \<and> writable blocked_storage)
   \<and> foldl visit blocked_storage three_visits = blocked_storage"
proof -
  have h: "log_state fresh_storage" "accessible fresh_storage" "writable fresh_storage"
    "three_visits \<noteq> []" "fst (last three_visits) = ''/work/''"
    by (simp_all add: log_state_def fresh_storage_def three_visits_def)
  have b: "log_state blocked_storage" "\<not> (accessible blocked_storage \<and> writable blocked_storage)"
    by (simp_all add: log_state_def blocked_storage_def)
  from C7_recent_pages_log [OF b(1), of three_visits] b(2)
  have "foldl visit blocked_storage three_visits = blocked_storage" by blast
  with C7_recent_pages_log [OF h(1), of three_visits] h b three_visits_log
  show ?thesis by (simp add: entry_path_recent)
qed

text \<open>
  C7 as the claim states it fails where the storage does not work: on a storage that
  refuses access, and on one that can be read and not written, the three page loads leave
  the log empty, so the path added last is not at its front.
\<close>

theorem C7_storage_unavailable:
  "log_state blocked_storage \<and> log_state full_storage \<and> three_visits \<noteq> []
   \<and> log_entries (foldl visit blocked_storage three_visits) = []
   \<and> log_entries (foldl visit full_storage three_visits) = []"
proof -
  have "foldl visit blocked_storage three_visits = blocked_storage"
    "foldl visit full_storage three_visits = full_storage"
    by (simp_all add: visits_refused blocked_storage_def full_storage_def)
  then show ?thesis
    by (simp add: log_state_def blocked_storage_def full_storage_def three_visits_def
        log_entries_def getRecentPages_def getRecentPages_try_def getItem_def)
qed

subsection \<open>C10: storage that fails\<close>

lemma getRecentPages_blocked: "\<not> accessible st \<Longrightarrow> getRecentPages st = JArr []"
  by (simp add: getRecentPages_def getRecentPages_try_def getItem_def)

lemma getRecentPages_unparsable:
  "stored_item st = Some (Unparsable s) \<Longrightarrow> getRecentPages st = JArr []"
  by (simp add: getRecentPages_def getRecentPages_try_def getItem_def)

lemma addRecentPage_unparsable:
  "stored_item st = Some (Unparsable s) \<Longrightarrow>
   addRecentPage p t st =
     (if accessible st \<and> writable st
      then st\<lparr>stored_item := Some (Parsable (JArr [recent_entry p t]))\<rparr> else st)"
  by (simp add: addRecentPage_def addRecentPage_try_def getRecentPages_unparsable setItem_def)

text \<open>
  C10, as the code has it. Neither function throws: an error in the body of
  \<open>getRecentPages\<close> makes it return the empty list, and an error in the body of
  \<open>addRecentPage\<close> makes it leave the storage as it was. When the storage refuses access,
  \<open>getRecentPages\<close> returns the empty list and \<open>addRecentPage\<close> changes nothing. When
  the stored value is not valid JSON, \<open>getRecentPages\<close> returns the empty list, and
  \<open>addRecentPage\<close> on a storage it can write replaces the value by the list of the one
  new entry (on a storage it cannot write it changes nothing).
\<close>

theorem C10_storage_failures_caught:
  "(getRecentPages_try st = Inl e \<longrightarrow> getRecentPages st = JArr [])
   \<and> (addRecentPage_try p t st = Inl e' \<longrightarrow> addRecentPage p t st = st)
   \<and> (\<not> accessible st \<longrightarrow> getRecentPages st = JArr [] \<and> addRecentPage p t st = st)
   \<and> (stored_item st = Some (Unparsable s) \<longrightarrow>
        getRecentPages st = JArr []
        \<and> addRecentPage p t st =
            (if accessible st \<and> writable st
             then st\<lparr>stored_item := Some (Parsable (JArr [recent_entry p t]))\<rparr> else st))"
  using addRecentPage_refused [of st p t]
  by (simp add: getRecentPages_blocked getRecentPages_unparsable addRecentPage_unparsable)
    (simp add: getRecentPages_def addRecentPage_def)

text \<open>The theorem for a storage that refuses access and for one with a garbled value.\<close>

theorem C10_witness:
  "getRecentPages_try blocked_storage = Inl SecurityError
   \<and> addRecentPage_try ''/notes/'' 1 blocked_storage = Inl SecurityError
   \<and> \<not> accessible blocked_storage
   \<and> getRecentPages blocked_storage = JArr []
   \<and> addRecentPage ''/notes/'' 1 blocked_storage = blocked_storage
   \<and> stored_item garbled_storage = Some (Unparsable ''[{oops'')
   \<and> getRecentPages garbled_storage = JArr []
   \<and> stored_item (addRecentPage ''/notes/'' 1 garbled_storage)
       = Some (Parsable (JArr [recent_entry ''/notes/'' 1]))"
proof -
  have b: "getRecentPages_try blocked_storage = Inl SecurityError"
    "addRecentPage_try ''/notes/'' 1 blocked_storage = Inl SecurityError"
    "\<not> accessible blocked_storage"
    by (simp_all add: blocked_storage_def getRecentPages_try_def getItem_def addRecentPage_try_def
        getRecentPages_def setItem_def)
  have g: "stored_item garbled_storage = Some (Unparsable ''[{oops'')"
    "accessible garbled_storage" "writable garbled_storage"
    by (simp_all add: garbled_storage_def)
  from C10_storage_failures_caught
    [of blocked_storage SecurityError "''/notes/''" 1 SecurityError "[]"] b
  have 1: "getRecentPages blocked_storage = JArr []"
    "addRecentPage ''/notes/'' 1 blocked_storage = blocked_storage"
    by simp_all
  from C10_storage_failures_caught
    [of garbled_storage SecurityError "''/notes/''" 1 SecurityError "''[{oops''"] g
  have 2: "getRecentPages garbled_storage = JArr []"
    "stored_item (addRecentPage ''/notes/'' 1 garbled_storage)
       = Some (Parsable (JArr [recent_entry ''/notes/'' 1]))"
    by simp_all
  from b g 1 2 show ?thesis by simp
qed

text \<open>
  C10 as the claim states it fails for a value that is not valid JSON in a working
  storage: \<open>addRecentPage\<close> does not leave the stored state unchanged, it overwrites the
  garbled value with the log of the one new entry.
\<close>

theorem C10_garbled_value_overwritten:
  "stored_item garbled_storage = Some (Unparsable ''[{oops'')
   \<and> stored_item (addRecentPage ''/notes/'' 1 garbled_storage)
       = Some (Parsable (JArr [recent_entry ''/notes/'' 1]))
   \<and> addRecentPage ''/notes/'' 1 garbled_storage \<noteq> garbled_storage"
proof -
  have "stored_item (addRecentPage ''/notes/'' 1 garbled_storage)
       = Some (Parsable (JArr [recent_entry ''/notes/'' 1]))"
    by (simp add: addRecentPage_unparsable [of _ "''[{oops''"] garbled_storage_def)
  moreover have "stored_item garbled_storage = Some (Unparsable ''[{oops'')"
    by (simp add: garbled_storage_def)
  ultimately show ?thesis by auto
qed

subsection \<open>C8: the keyboard focus\<close>

text \<open>An arrow key pressed while the index is \<open>-1\<close> or inside the list of visible nodes
  leaves it inside the list, and the index does not wrap at either end.\<close>

lemma arrow_in_range:
  assumes "modalActive v" "keyboardFocusableNodes v \<noteq> []"
    "- 1 \<le> focusedNodeIndex v" "focusedNodeIndex v < int (length (keyboardFocusableNodes v))"
  shows "0 \<le> focusedNodeIndex (arrowKey gd p k v)
         \<and> focusedNodeIndex (arrowKey gd p k v) < int (length (keyboardFocusableNodes v))"
  using assms
  by (auto simp: arrowKey_def Let_def initGraph_def split: option.splits)

lemma arrow_no_wrap:
  assumes "modalActive v" "keyboardFocusableNodes v \<noteq> []"
  shows "focusedNodeIndex v = 0 \<Longrightarrow> k = ArrowUp \<or> k = ArrowLeft \<Longrightarrow>
           focusedNodeIndex (arrowKey gd p k v) = 0"
    and "focusedNodeIndex v = int (length (keyboardFocusableNodes v)) - 1 \<Longrightarrow>
           k = ArrowDown \<or> k = ArrowRight \<Longrightarrow>
           focusedNodeIndex (arrowKey gd p k v) = int (length (keyboardFocusableNodes v)) - 1"
  using assms
  by (auto simp: arrowKey_def Let_def initGraph_def split: option.splits)

lemma notes_graph_length: "length (nodes notes_graph) = 7" "nodes notes_graph \<noteq> []"
  by (simp_all add: notes_graph_nodes coreNodes_def)

lemma open_notes_graph:
  "handle notes_graph ''/'' initialView OpenGraph
   = initialView\<lparr>modalActive := True, keyboardFocusableNodes := nodes notes_graph\<rparr>"
  by (simp add: handle_def initGraph_def visibleNodes_all initialView_def notes_graph_length)

lemma arrow_down_notes_graph:
  assumes "- 1 \<le> i" "i < 6"
  shows "handle notes_graph ''/''
           (initialView\<lparr>modalActive := True, focusedNodeIndex := i,
                        keyboardFocusableNodes := nodes notes_graph\<rparr>) (Arrow ArrowDown)
         = initialView\<lparr>modalActive := True, focusedNodeIndex := i + 1,
                        keyboardFocusableNodes := nodes notes_graph\<rparr>"
  using assms
  by (simp add: handle_def arrowKey_def Let_def focusedNode_def initGraph_def visibleNodes_all
      initialView_def notes_graph_length)

lemma nav_off_notes_graph:
  "handle notes_graph ''/''
     (initialView\<lparr>modalActive := True, focusedNodeIndex := 2,
                  keyboardFocusableNodes := nodes notes_graph\<rparr>) (FilterClick ''nav'')
   = initialView\<lparr>modalActive := True, activeCategories := {''notes'', ''work'', ''reading''},
                  focusedNodeIndex := 2,
                  keyboardFocusableNodes :=
                    [mk_node ''notes-climate-sal-'' ''SAL'' ''/notes/climate/sal.html'' ''notes'']\<rparr>"
proof -
  have t: "toggleCategory ''nav'' {''all'', ''notes'', ''work'', ''reading'', ''nav''}
           = {''notes'', ''work'', ''reading''}"
    by (auto simp: toggleCategory_def)
  show ?thesis
    by (simp add: handle_def initGraph_def initialView_def t visibleNodes_def Let_def
        notes_graph_nodes coreNodes_def mk_node_def)
qed

text \<open>
  C8 says that for a non-empty list of visible nodes the focus index after an arrow key
  is always within [0, length - 1]. The code breaks this after a filter click: the click
  handler builds a new list of visible nodes and keeps the old index (the search
  handlers reset it to \<open>-1\<close>). In the run \<open>stale_focus_events\<close> the index is 2 of seven
  nodes when the Nav filter goes off; one node stays visible, and the arrow up sets the
  index to max(2 - 1, 0) = 1, above the last index 0: no node has the focus.
\<close>

theorem C8_stale_focus_index:
  "length (keyboardFocusableNodes stale_focus_view) = 1
   \<and> focusedNodeIndex stale_focus_view = 1
   \<and> \<not> focusedNodeIndex stale_focus_view \<le> int (length (keyboardFocusableNodes stale_focus_view)) - 1
   \<and> focusedNode stale_focus_view = None"
proof -
  have "foldl (handle notes_graph ''/'') initialView [OpenGraph, Arrow ArrowDown, Arrow ArrowDown, Arrow ArrowDown]
        = initialView\<lparr>modalActive := True, focusedNodeIndex := 2,
                       keyboardFocusableNodes := nodes notes_graph\<rparr>"
    using arrow_down_notes_graph [of "- 1"] arrow_down_notes_graph [of 0] arrow_down_notes_graph [of 1]
    by (simp add: open_notes_graph) (simp add: initialView_def)
  then have "stale_focus_view
     = handle notes_graph ''/''
         (initialView\<lparr>modalActive := True, activeCategories := {''notes'', ''work'', ''reading''},
                  focusedNodeIndex := 2,
                  keyboardFocusableNodes :=
                    [mk_node ''notes-climate-sal-'' ''SAL'' ''/notes/climate/sal.html'' ''notes'']\<rparr>)
         (Arrow ArrowUp)"
    by (simp add: stale_focus_view_def stale_focus_events_def nav_off_notes_graph)
  then have eq: "stale_focus_view
     = initialView\<lparr>modalActive := True, activeCategories := {''notes'', ''work'', ''reading''},
                  focusedNodeIndex := 1,
                  keyboardFocusableNodes :=
                    [mk_node ''notes-climate-sal-'' ''SAL'' ''/notes/climate/sal.html'' ''notes'']\<rparr>"
    by (simp add: handle_def arrowKey_def Let_def focusedNode_def initialView_def)
  show ?thesis
    by (simp add: eq focusedNode_def)
qed

subsection \<open>C9: backlinks and related content\<close>

lemma keyed_fold_paths: "keyed m \<Longrightarrow> keyed (foldl (\<lambda>m n. map_set (path n) n m) m xs)"
  by (induction xs arbitrary: m) (simp_all add: keyed_map_set)

lemma map_set_keys: "fst ` set (map_set k v m) = insert k (fst ` set m)"
proof -
  have "set (map fst (map_set k v m)) = insert k (set (map fst m))"
    unfolding map_set_fst by auto
  then show ?thesis by simp
qed

lemma fold_paths_keys:
  "fst ` set (foldl (\<lambda>m n. map_set (path n) n m) m xs) = fst ` set m \<union> path ` set xs"
  by (induction xs arbitrary: m) (simp_all add: map_set_keys)

lemma fold_paths_values:
  "set (map snd (foldl (\<lambda>m n. map_set (path n) n m) m xs)) \<subseteq> set (map snd m) \<union> set xs"
proof (induction xs arbitrary: m)
  case Nil
  then show ?case by simp
next
  case (Cons x xs)
  have "set (map snd (map_set (path x) x m)) \<subseteq> insert x (set (map snd m))"
    using map_set_values [of "path x" x m] by force
  with Cons.IH [of "map_set (path x) x m"] show ?case by auto
qed

lemma dedupe_lists_by_path: "lists_by_path (dedupe_by_path xs) (set xs)"
proof -
  let ?m = "foldl (\<lambda>m n. map_set (path n) n m) [] xs"
  have k: "keyed ?m" by (rule keyed_fold_paths) (simp add: keyed_def)
  have p: "map path (dedupe_by_path xs) = map fst ?m"
    using keyed_paths [OF k] by (simp add: dedupe_by_path_def)
  have "set (dedupe_by_path xs) \<subseteq> set xs"
    using fold_paths_values [of "[]" xs] by (simp add: dedupe_by_path_def map_values_def)
  moreover have "path ` set (dedupe_by_path xs) = path ` set xs"
  proof -
    have "path ` set (dedupe_by_path xs) = set (map path (dedupe_by_path xs))" by simp
    also have "\<dots> = fst ` set ?m" by (simp add: p)
    also have "\<dots> = path ` set xs" using fold_paths_keys [of "[]" xs] by simp
    finally show ?thesis .
  qed
  moreover have "distinct (map path (dedupe_by_path xs))"
    using k by (simp add: p keyed_def)
  ultimately show ?thesis by (simp add: lists_by_path_def)
qed

text \<open>Where no two nodes share an id, the lists that the code collects hold the nodes the
  specification names.\<close>

lemma find_by_id:
  "distinct (map id_node ns) \<Longrightarrow>
   (find (\<lambda>m. id_node m = i) ns = Some n) = (n \<in> set ns \<and> id_node n = i)"
  by (induction ns) auto

lemma backlinks_found:
  "set (backlinks gd c p) =
     {n. \<exists>l \<in> set (links gd). target l = c
           \<and> find (\<lambda>m. id_node m = source l) (nodes gd) = Some n \<and> path n \<noteq> p}"
  by (auto simp: backlinks_def split: option.splits if_splits)

lemma related_found:
  "set (related gd c p) =
     {n. \<exists>l \<in> set (links gd). source l = c
           \<and> find (\<lambda>m. id_node m = target l) (nodes gd) = Some n \<and> path n \<noteq> p}"
  by (auto simp: related_def split: option.splits if_splits)

lemma backlinks_set:
  "distinct (map id_node (nodes gd)) \<Longrightarrow> set (backlinks gd c p) = linking_in gd c p"
  unfolding backlinks_found linking_in_def by (auto simp: find_by_id)

lemma related_set:
  "distinct (map id_node (nodes gd)) \<Longrightarrow> set (related gd c p) = linked_out gd c p"
  unfolding related_found linked_out_def by (auto simp: find_by_id)

lemma injected_lists_distinct_ids:
  assumes "distinct (map id_node (nodes gd))" and "nodes gd \<noteq> []"
    and "cp \<noteq> []" and "cp \<noteq> ''/''" and "cp \<noteq> ''/index.html''"
    and "getCurrentPageId (nodes gd) cp = Some c" and "c \<noteq> []"
  shows "\<exists>bl rel. injectBacklinksAndRelated gd cp True = Injected bl rel
           \<and> lists_by_path bl (linking_in gd c cp) \<and> lists_by_path rel (linked_out gd c cp)"
  using assms dedupe_lists_by_path [of "backlinks gd c cp"] dedupe_lists_by_path [of "related gd c cp"]
  by (simp add: injectBacklinksAndRelated_def backlinks_set related_set)

text \<open>The homepage is left out of the augmentation, whatever the graph.\<close>

lemma homepage_skipped:
  "nodes gd \<noteq> [] \<Longrightarrow> cp = ''/'' \<or> cp = ''/index.html'' \<Longrightarrow>
   injectBacklinksAndRelated gd cp contentArea = Skipped"
  by (auto simp: injectBacklinksAndRelated_def)

text \<open>The example of the specification, and the About page of the offline graph.\<close>

lemma ab_backlinks:
  "injectBacklinksAndRelated ab_graph ''/b'' True = Injected [node_a] []"
  "injectBacklinksAndRelated ab_graph ''/a'' True = Injected [] [node_b]"
  by (simp_all add: injectBacklinksAndRelated_def ab_graph_def node_a_def node_b_def mk_node_def
      mk_edge_def getCurrentPageId_def backlinks_def related_def dedupe_by_path_def map_values_def)

lemma ab_sets:
  "linking_in ab_graph ''b'' ''/b'' = {node_a}" "linked_out ab_graph ''b'' ''/b'' = {}"
  "linking_in ab_graph ''a'' ''/a'' = {}" "linked_out ab_graph ''a'' ''/a'' = {node_b}"
  by (auto simp: linking_in_def linked_out_def ab_graph_def node_a_def node_b_def mk_node_def
      mk_edge_def)

lemma about_page:
  "nodes offline_graph \<noteq> []"
  "distinct (map id_node (nodes offline_graph))"
  "getCurrentPageId (nodes offline_graph) ''/about.html'' = Some ''about''"
  by (simp_all add: offline_graph_eval fallbackNodes_def mk_node_def getCurrentPageId_def)

lemma about_backlinks:
  "injectBacklinksAndRelated offline_graph ''/about.html'' True = Injected [home_node] []"
  by (simp add: offline_graph_eval fallbackNodes_def manualLinks_def mk_node_def mk_edge_def
      injectBacklinksAndRelated_def getCurrentPageId_def backlinks_def related_def
      dedupe_by_path_def map_values_def home_node_def)

text \<open>The graph of the index with the two notes: both notes have the id
  \<open>notes-climate-sal-\<close>, and one link leaves that id, to \<open>notes\<close>.\<close>

lemma clash_graph_links:
  "links clash_graph = manualLinks @ [mk_edge ''notes-climate-sal-'' ''notes'']"
  by code_simp

lemma linking_in_filter:
  "linking_in gd c p =
     set (filter (\<lambda>n. path n \<noteq> p \<and> (\<exists>l \<in> set (links gd). target l = c \<and> source l = id_node n))
           (nodes gd))"
  by (auto simp: linking_in_def)

lemma clash_notes_sources:
  "linking_in clash_graph ''notes'' ''/notes/'' = {home_node, sal_node, climate_sal_node}"
  by (simp add: linking_in_filter clash_graph_nodes clash_graph_links coreNodes_def
      manualLinks_def mk_node_def mk_edge_def home_node_def sal_node_def climate_sal_node_def)

lemma clash_notes_injected:
  "getCurrentPageId (nodes clash_graph) ''/notes/'' = Some ''notes''"
  "injectBacklinksAndRelated clash_graph ''/notes/'' True = Injected [home_node, sal_node] []"
  by (simp_all add: clash_graph_nodes clash_graph_links coreNodes_def manualLinks_def
      mk_node_def mk_edge_def injectBacklinksAndRelated_def getCurrentPageId_def backlinks_def
      related_def dedupe_by_path_def map_values_def home_node_def sal_node_def)

text \<open>
  C9 fails on the code where two nodes share an id. The index with the notes
  \<open>notes/climate/sal.html\<close> (SAL) and \<open>notes/climate-sal.html\<close> (Climate SAL) gives both
  nodes the id \<open>notes-climate-sal-\<close>, and the graph one link from that id to \<open>notes\<close>. On
  the page \<open>/notes/\<close> the current node is identified, with the id \<open>notes\<close>, and the sources
  of the links whose target is that id are Home, SAL and Climate SAL, three pages with
  three paths. The injected backlinks are Home and SAL only: the code takes for the source
  of a link the first node that has the id, so Climate SAL, a page that links to this
  one, is not listed.
\<close>

theorem C9_id_clash_hides_backlink:
  "nodes clash_graph = coreNodes @ [sal_node, climate_sal_node]
   \<and> id_node sal_node = id_node climate_sal_node \<and> path sal_node \<noteq> path climate_sal_node
   \<and> getCurrentPageId (nodes clash_graph) ''/notes/'' = Some ''notes''
   \<and> mk_edge (id_node climate_sal_node) ''notes'' \<in> set (links clash_graph)
   \<and> linking_in clash_graph ''notes'' ''/notes/'' = {home_node, sal_node, climate_sal_node}
   \<and> injectBacklinksAndRelated clash_graph ''/notes/'' True = Injected [home_node, sal_node] []
   \<and> climate_sal_node \<notin> set [home_node, sal_node]
   \<and> \<not> lists_by_path [home_node, sal_node] (linking_in clash_graph ''notes'' ''/notes/'')"
proof -
  have n: "nodes clash_graph = coreNodes @ [sal_node, climate_sal_node]"
    by (simp add: clash_graph_nodes sal_node_def climate_sal_node_def)
  have d: "id_node sal_node = id_node climate_sal_node" "path sal_node \<noteq> path climate_sal_node"
    "climate_sal_node \<notin> set [home_node, sal_node]"
    by (simp_all add: sal_node_def climate_sal_node_def home_node_def mk_node_def)
  have l: "mk_edge (id_node climate_sal_node) ''notes'' \<in> set (links clash_graph)"
    by (simp add: clash_graph_links climate_sal_node_def mk_node_def)
  have m: "path climate_sal_node \<notin> path ` set [home_node, sal_node]"
    by (simp add: sal_node_def climate_sal_node_def home_node_def mk_node_def)
  have "climate_sal_node \<in> linking_in clash_graph ''notes'' ''/notes/''"
    by (simp add: clash_notes_sources)
  then have "path climate_sal_node \<in> path ` linking_in clash_graph ''notes'' ''/notes/''"
    by (rule imageI)
  with m have "path ` set [home_node, sal_node] \<noteq> path ` linking_in clash_graph ''notes'' ''/notes/''"
    by metis
  then have "\<not> lists_by_path [home_node, sal_node] (linking_in clash_graph ''notes'' ''/notes/'')"
    by (simp only: lists_by_path_def) blast
  with n d l clash_notes_sources clash_notes_injected show ?thesis by simp
qed

end
